theory Spec2Isabelle
  imports Complex_Main "HOL-Library.AList" "HOL-Library.Sublist"
begin

section \<open>Python strings and dictionaries\<close>

text \<open>
  A Python \<^verbatim>\<open>str\<close> is a sequence of Unicode code points, so a string is a list of
  code points (natural numbers). The non-ASCII literals of the source are written by
  their code points; ASCII-only dictionary keys are kept as HOL strings.
\<close>

type_synonym uchar = nat
type_synonym ustr = "uchar list"

definition ascii :: "string \<Rightarrow> ustr" where
  "ascii s = map of_char s"

text \<open>\<^verbatim>\<open>v in d\<close> on strings: \<open>v\<close> occurs in \<open>d\<close> as a contiguous run.\<close>

fun str_in :: "ustr \<Rightarrow> ustr \<Rightarrow> bool" where
  "str_in v [] = (v = [])"
| "str_in v (c # cs) = (prefix v (c # cs) \<or> str_in v cs)"

text \<open>
  A \<^verbatim>\<open>dict\<close> keeps insertion order: assigning to a key that is present replaces its value
  in place, assigning to a new key appends it. That is \<^const>\<open>AList.update\<close> on an
  association list.
\<close>

type_synonym ('k, 'v) dict = "('k \<times> 'v) list"

section \<open>main.py: categorise\<close>

text \<open>
  The table \<^verbatim>\<open>features\<close> of \<^verbatim>\<open>categorise\<close>: seven attributes in the order of the
  dict literal, each with its keywords (one to four CJK characters each, written here by
  code point: the first keyword of \<^verbatim>\<open>configuration\<close> is U+5BA4, that of
  \<^verbatim>\<open>area\<close> is U+5E73 U+7C73, and so on).
\<close>

definition features :: "(string, ustr list) dict" where
  "features =
    [(''configuration'', [[0x5BA4], [0x5385]]),
     (''area'', [[0x5E73, 0x7C73]]),
     (''towards'', [[0x4E1C], [0x5357], [0x897F], [0x5317]]),
     (''decorate'', [[0x7CBE, 0x88C5], [0x7B80, 0x88C5], [0x6BDB, 0x576F]]),
     (''storey'', [[0x5C42]]),
     (''period'', [[0x5E74]]),
     (''categorie'', [[0x677F, 0x5854, 0x7ED3, 0x5408], [0x677F, 0x697C], [0x5854, 0x697C]])]"

text \<open>
  \<^verbatim>\<open>
  res = {}
  for detail in details:
      for key, values in features.items():
          for value in values:
              if value in detail:
                  res[key] = detail
  return res
  \<close>
  The three nested loops, innermost first.
\<close>

fun categorise_values :: "string \<Rightarrow> ustr \<Rightarrow> ustr list \<Rightarrow> (string, ustr) dict \<Rightarrow> (string, ustr) dict" where
  "categorise_values key detail [] res = res"
| "categorise_values key detail (v # values) res =
     categorise_values key detail values
       (if str_in v detail then AList.update key detail res else res)"

fun categorise_items :: "ustr \<Rightarrow> (string, ustr list) dict \<Rightarrow> (string, ustr) dict \<Rightarrow> (string, ustr) dict" where
  "categorise_items detail [] res = res"
| "categorise_items detail ((key, values) # items) res =
     categorise_items detail items (categorise_values key detail values res)"

fun categorise_loop :: "ustr list \<Rightarrow> (string, ustr) dict \<Rightarrow> (string, ustr) dict" where
  "categorise_loop [] res = res"
| "categorise_loop (detail # details) res =
     categorise_loop details (categorise_items detail features res)"

text \<open>
  The exceptions the modelled code can raise. A \<^verbatim>\<open>RuntimeError\<close> carries one of the three
  messages of the source; the third is formatted from \<^verbatim>\<open>retries\<close> and the URL.
  \<^verbatim>\<open>RequestException\<close> is a network failure raised by \<^verbatim>\<open>session.get\<close> (the number
  names the exception object), \<^verbatim>\<open>HTTPError\<close> the subclass raised by
  \<^verbatim>\<open>raise_for_status\<close>, \<^verbatim>\<open>LxmlError\<close> whatever \<^verbatim>\<open>etree.HTML\<close> raises.
  \<^verbatim>\<open>ValueError\<close> and \<^verbatim>\<open>OverflowError\<close> come from \<^verbatim>\<open>urlparse\<close> and \<^verbatim>\<open>time.sleep\<close>.
\<close>

datatype runtime_error =
    Blocked_by_anti_bot_verification
  | Failed_to_retrieve_html
  | Failed_to_fetch_detail_page int ustr

datatype py_exn =
    TypeError
  | IndexError
  | AttributeError
  | ValueError
  | OverflowError
  | LxmlError
  | RequestException nat
  | HTTPError int
  | RuntimeError runtime_error

text \<open>
  \<open>categorise\<close> is called with a list of segments or with \<^verbatim>\<open>None\<close>; iterating over
  \<^verbatim>\<open>None\<close> raises \<^verbatim>\<open>TypeError\<close>.
\<close>

definition categorise :: "ustr list option \<Rightarrow> py_exn + (string, ustr) dict" where
  "categorise details =
     (case details of
        None \<Rightarrow> Inl TypeError
      | Some ds \<Rightarrow> Inr (categorise_loop ds []))"

text \<open>A segment matches an attribute when it contains one of the attribute's keywords.\<close>

definition matches :: "string \<Rightarrow> ustr \<Rightarrow> bool" where
  "matches k d = (\<exists>(key, values) \<in> set features. key = k \<and> (\<exists>v \<in> set values. str_in v d))"

section \<open>Tables of the Python runtime\<close>

text \<open>
  Three character tables belong to the Python runtime and not to the repository: the
  Unicode decimal digits (\<^verbatim>\<open>\d\<close> of \<^verbatim>\<open>re\<close>), the Unicode whitespace
  (\<^verbatim>\<open>\s\<close> and \<^verbatim>\<open>str.strip\<close>), and the characters the GBK codec can encode. So do
  two library functions: \<^verbatim>\<open>urlparse\<close>, seen through the scheme and the netloc it returns
  (\<open>None\<close> when it raises \<^verbatim>\<open>ValueError\<close>), and \<^verbatim>\<open>str\<close> on an exception object. The
  last entry is the longest duration, in seconds, that the clock type of the platform
  holds: \<^verbatim>\<open>time.sleep\<close> raises \<^verbatim>\<open>OverflowError\<close> beyond it. They are parameters of the
  model.
\<close>

record runtime =
  isdigit :: "uchar \<Rightarrow> bool"
  isspace :: "uchar \<Rightarrow> bool"
  gbk_encodable :: "uchar \<Rightarrow> bool"
  urlparse :: "ustr \<Rightarrow> (ustr \<times> ustr) option"
  exn_str :: "py_exn \<Rightarrow> ustr"
  sleep_limit :: real

definition strip :: "runtime \<Rightarrow> ustr \<Rightarrow> ustr" where
  "strip rt s = rev (dropWhile (isspace rt) (rev (dropWhile (isspace rt) s)))"

fun join :: "ustr \<Rightarrow> ustr list \<Rightarrow> ustr" where
  "join sep [] = []"
| "join sep [x] = x"
| "join sep (x # y # ys) = x @ sep @ join sep (y # ys)"

text \<open>
  \<^verbatim>\<open>s.split(sep)\<close> for a non-empty separator: cut at every occurrence of \<open>sep\<close>, scanning
  from the left; \<open>cur\<close> is the piece being read.
\<close>

function split_from :: "ustr \<Rightarrow> ustr \<Rightarrow> ustr \<Rightarrow> ustr list" where
  "split_from sep cur [] = [cur]"
| "split_from sep cur (c # cs) =
     (if sep \<noteq> [] \<and> prefix sep (c # cs)
      then cur # split_from sep [] (drop (length sep) (c # cs))
      else split_from sep (cur @ [c]) cs)"
  by pat_completeness auto
termination
  by (relation "measure (\<lambda>(sep, cur, s). length s)") auto

definition split :: "ustr \<Rightarrow> ustr \<Rightarrow> ustr list" where
  "split s sep = split_from sep [] s"

section \<open>main.py: the three patterns of the follow text\<close>

text \<open>
  \<^verbatim>\<open>re.search\<close> tries every start position from the left and returns the first match.
\<close>

fun re_search :: "(ustr \<Rightarrow> 'a option) \<Rightarrow> ustr \<Rightarrow> 'a option" where
  "re_search m [] = m []"
| "re_search m (c # cs) = (case m (c # cs) of Some g \<Rightarrow> Some g | None \<Rightarrow> re_search m cs)"

text \<open>
  \<^verbatim>\<open>(\d+)REST\<close> at the start of \<open>s\<close>: the greedy \<^verbatim>\<open>\d+\<close> first takes every leading digit
  and gives digits back one at a time, down to one, until \<open>rest\<close> accepts what follows.
  The result is group 1.
\<close>

definition digits_then :: "runtime \<Rightarrow> (ustr \<Rightarrow> bool) \<Rightarrow> ustr \<Rightarrow> ustr option" where
  "digits_then rt rest s =
     map_option (\<lambda>k. take k s)
       (List.find (\<lambda>k. rest (drop k s))
          (rev [1 ..< Suc (length (takeWhile (isdigit rt) s))]))"

text \<open>\<^verbatim>\<open>\s*LIT\<close> at the start of \<open>s\<close>: some number of leading whitespace characters, then \<open>lit\<close>.\<close>

definition spaces_then_lit :: "runtime \<Rightarrow> ustr \<Rightarrow> ustr \<Rightarrow> bool" where
  "spaces_then_lit rt lit s =
     (\<exists>m \<in> set (rev [0 ..< Suc (length (takeWhile (isspace rt) s))]). prefix lit (drop m s))"

text \<open>\<^verbatim>\<open>(\d+)\s*\<close> followed by the three characters U+4EBA U+5173 U+6CE8.\<close>

definition match_follow :: "runtime \<Rightarrow> ustr \<Rightarrow> ustr option" where
  "match_follow rt text =
     re_search (digits_then rt (spaces_then_lit rt [0x4EBA, 0x5173, 0x6CE8])) text"

text \<open>U+5171, then \<^verbatim>\<open>(\d+)\s*\<close>, then U+6B21 U+5E26 U+770B.\<close>

definition match_visit :: "runtime \<Rightarrow> ustr \<Rightarrow> ustr option" where
  "match_visit rt text =
     re_search
       (\<lambda>s. case s of
            [] \<Rightarrow> None
          | c # cs \<Rightarrow>
              if c = 0x5171 then digits_then rt (spaces_then_lit rt [0x6B21, 0x5E26, 0x770B]) cs
              else None)
       text"

text \<open>
  The publish pattern has three alternatives, tried in this order at each position:
  digits, U+5929, then U+4EE5 U+524D or U+4EE5 U+5185, then U+53D1 U+5E03; the literal
  U+4ECA U+5929 U+53D1 U+5E03; the literal U+521A U+521A U+53D1 U+5E03. Group 1 is the
  matched text.
\<close>

definition days_suffixes :: "ustr list" where
  "days_suffixes =
     [[0x5929, 0x4EE5, 0x524D, 0x53D1, 0x5E03], [0x5929, 0x4EE5, 0x5185, 0x53D1, 0x5E03]]"

definition publish_at :: "runtime \<Rightarrow> ustr \<Rightarrow> ustr option" where
  "publish_at rt s =
     (case digits_then rt (\<lambda>r. \<exists>suf \<in> set days_suffixes. prefix suf r) s of
        Some ds \<Rightarrow> Some (ds @ take 5 (drop (length ds) s))
      | None \<Rightarrow>
          if prefix [0x4ECA, 0x5929, 0x53D1, 0x5E03] s then Some [0x4ECA, 0x5929, 0x53D1, 0x5E03]
          else if prefix [0x521A, 0x521A, 0x53D1, 0x5E03] s then Some [0x521A, 0x521A, 0x53D1, 0x5E03]
          else None)"

definition match_publish :: "runtime \<Rightarrow> ustr \<Rightarrow> ustr option" where
  "match_publish rt text = re_search (publish_at rt) text"

section \<open>main.py: extract\<close>

text \<open>
  \<^verbatim>\<open>etree.HTML\<close> and the XPath engine are lxml's. The model takes the parser as a
  function from the page body to its outcome: it raises, it returns \<^verbatim>\<open>None\<close>, or it
  returns a tree. A tree of a results page is seen through the one query
  \<^verbatim>\<open>//ul[@class="sellListContent"]/li\<close>, and each \<^verbatim>\<open>li\<close> node through the eight relative
  queries of the loop body; a node is the record of their results, in document order.
\<close>

datatype 'a parsed = Parse_raises | Parse_none | Parse_tree 'a

record li_node =
  title_text :: "ustr list"
  position_text :: "ustr list"
  address_text :: "ustr list"
  price_text :: "ustr list"
  unit_price_attr :: "ustr list"
  title_href :: "ustr list"
  follow_parts :: "ustr list"
  tag_text :: "ustr list"

record price_info =
  total_price :: "ustr option"
  unit_price :: "ustr option"

record listing =
  title :: "ustr option"
  location :: ustr
  details :: "(string, ustr) dict"
  price :: price_info
  follow_count :: "ustr option"
  visit_count :: "ustr option"
  publish_time :: "ustr option"
  tags :: "ustr list"
  follow_info :: ustr
  link :: "ustr option"

text \<open>\<^verbatim>\<open>xs[0] if xs else None\<close>\<close>

definition first_or_none :: "'a list \<Rightarrow> 'a option" where
  "first_or_none xs = (case xs of [] \<Rightarrow> None | x # _ \<Rightarrow> Some x)"

text \<open>\<^verbatim>\<open>[part.strip() for part in parts if part.strip()]\<close>\<close>

definition stripped_nonempty :: "runtime \<Rightarrow> ustr list \<Rightarrow> ustr list" where
  "stripped_nonempty rt parts = map (strip rt) (filter (\<lambda>part. strip rt part \<noteq> []) parts)"

text \<open>
  The body of the loop over \<^verbatim>\<open>li_list\<close>. Every field but one falls back to \<^verbatim>\<open>None\<close> or to
  an empty value; \<^verbatim>\<open>details\<close> is \<^verbatim>\<open>None\<close> when the address query finds nothing, and is
  then passed to \<^verbatim>\<open>categorise\<close> as it is.
\<close>

definition extract_item :: "runtime \<Rightarrow> li_node \<Rightarrow> py_exn + listing" where
  "extract_item rt li =
     (let title' = first_or_none (title_text li);
          location' = join (ascii '', '') (position_text li);
          details' = (case address_text li of
                        [] \<Rightarrow> None
                      | d # _ \<Rightarrow> Some (split d (ascii '' | '')));
          total_price' = (case price_text li of
                            [] \<Rightarrow> None
                          | p # _ \<Rightarrow> Some (p @ [0x20, 0x4E07]));
          unit_price' = (case unit_price_attr li of
                           [] \<Rightarrow> None
                         | p # _ \<Rightarrow> Some (p @ [0x20, 0x5143]));
          jump_link = first_or_none (title_href li);
          follow_text = join (ascii '' / '') (stripped_nonempty rt (follow_parts li));
          follow_count' = (if follow_text \<noteq> [] then match_follow rt follow_text else None);
          visit_count' = (if follow_text \<noteq> [] then match_visit rt follow_text else None);
          publish_time' = (if follow_text \<noteq> [] then match_publish rt follow_text else None);
          tags' = stripped_nonempty rt (tag_text li)
      in case categorise details' of
           Inl e \<Rightarrow> Inl e
         | Inr cats \<Rightarrow>
             Inr \<lparr>title = title', location = location', details = cats,
                  price = \<lparr>total_price = total_price', unit_price = unit_price'\<rparr>,
                  follow_count = follow_count', visit_count = visit_count',
                  publish_time = publish_time', tags = tags',
                  follow_info = follow_text, link = jump_link\<rparr>)"

text \<open>\<^verbatim>\<open>for li in li_list: ... infos.append({...})\<close>: an exception in one item leaves the loop.\<close>

fun extract_loop :: "runtime \<Rightarrow> li_node list \<Rightarrow> listing list \<Rightarrow> py_exn + listing list" where
  "extract_loop rt [] infos = Inr infos"
| "extract_loop rt (li # li_list) infos =
     (case extract_item rt li of
        Inl e \<Rightarrow> Inl e
      | Inr info \<Rightarrow> extract_loop rt li_list (infos @ [info]))"

text \<open>
  \<^verbatim>\<open>
  try:
      root = etree.HTML(html_code)
  except Exception:
      return None
  li_list = root.xpath('//ul[@class="sellListContent"]/li')
  if not li_list:
      return None
  \<close>
  The result is an exception, \<^verbatim>\<open>None\<close>, or the list \<^verbatim>\<open>infos\<close>. (The function is
  \<^verbatim>\<open>extract\<close> in the source, a reserved word here.)
\<close>

definition extract_py :: "runtime \<Rightarrow> (ustr \<Rightarrow> li_node list parsed) \<Rightarrow> ustr \<Rightarrow> py_exn + listing list option" where
  "extract_py rt HTML html_code =
     (case HTML html_code of
        Parse_raises \<Rightarrow> Inr None
      | Parse_none \<Rightarrow> Inl AttributeError
      | Parse_tree li_list \<Rightarrow>
          if li_list = [] then Inr None
          else (case extract_loop rt li_list [] of
                  Inl e \<Rightarrow> Inl e
                | Inr infos \<Rightarrow> Inr (Some infos)))"

section \<open>detail\_scraper.py: the delay window\<close>

text \<open>
  \<^verbatim>\<open>--min-delay\<close> and \<^verbatim>\<open>--max-delay\<close> are parsed with \<^verbatim>\<open>type=float\<close>, which accepts every
  float, also infinities and NaN. The code only compares them, so a float is a real
  number or one of the three special values, with Python's comparisons: every comparison
  with NaN is false.
\<close>

datatype pyfloat = Finite real | PosInf | NegInf | NaN

fun float_gt :: "pyfloat \<Rightarrow> pyfloat \<Rightarrow> bool" where
  "float_gt NaN _ = False"
| "float_gt _ NaN = False"
| "float_gt (Finite x) (Finite y) = (x > y)"
| "float_gt PosInf PosInf = False"
| "float_gt PosInf _ = True"
| "float_gt _ PosInf = False"
| "float_gt NegInf _ = False"
| "float_gt (Finite x) NegInf = True"

fun float_le :: "pyfloat \<Rightarrow> pyfloat \<Rightarrow> bool" where
  "float_le NaN _ = False"
| "float_le _ NaN = False"
| "float_le (Finite x) (Finite y) = (x \<le> y)"
| "float_le NegInf _ = True"
| "float_le _ PosInf = True"
| "float_le PosInf _ = False"
| "float_le (Finite x) NegInf = False"

text \<open>
  The builtin \<^verbatim>\<open>max(a, b)\<close> keeps its first argument unless the second compares greater.
\<close>

definition py_max :: "pyfloat \<Rightarrow> pyfloat \<Rightarrow> pyfloat" where
  "py_max a b = (if float_gt b a then b else a)"

text \<open>
  \<^verbatim>\<open>
  min_delay = max(0.0, args.min_delay)
  max_delay = max(min_delay, args.max_delay)
  \<close>
\<close>

definition delay_window :: "pyfloat \<Rightarrow> pyfloat \<Rightarrow> pyfloat \<times> pyfloat" where
  "delay_window args_min_delay args_max_delay =
     (let min_delay = py_max (Finite 0) args_min_delay;
          max_delay = py_max min_delay args_max_delay
      in (min_delay, max_delay))"

text \<open>
  \<^verbatim>\<open>random.uniform(a, b)\<close> is \<^verbatim>\<open>a + (b - a) * random.random()\<close>, with the arithmetic of
  floats on the special values: a difference of two equal infinities is NaN, an infinity
  times zero is NaN, and NaN spreads. On finite values the model computes exactly, where
  the floats round. \<open>r\<close> is the value that \<^verbatim>\<open>random.random()\<close> returned, a real number
  with \<open>0 \<le> r < 1\<close>.
\<close>

fun float_sub :: "pyfloat \<Rightarrow> pyfloat \<Rightarrow> pyfloat" where
  "float_sub NaN _ = NaN"
| "float_sub _ NaN = NaN"
| "float_sub (Finite x) (Finite y) = Finite (x - y)"
| "float_sub PosInf PosInf = NaN"
| "float_sub NegInf NegInf = NaN"
| "float_sub PosInf _ = PosInf"
| "float_sub NegInf _ = NegInf"
| "float_sub (Finite x) PosInf = NegInf"
| "float_sub (Finite x) NegInf = PosInf"

fun float_add :: "pyfloat \<Rightarrow> pyfloat \<Rightarrow> pyfloat" where
  "float_add NaN _ = NaN"
| "float_add _ NaN = NaN"
| "float_add (Finite x) (Finite y) = Finite (x + y)"
| "float_add PosInf NegInf = NaN"
| "float_add NegInf PosInf = NaN"
| "float_add PosInf _ = PosInf"
| "float_add NegInf _ = NegInf"
| "float_add (Finite x) PosInf = PosInf"
| "float_add (Finite x) NegInf = NegInf"

fun float_scale :: "pyfloat \<Rightarrow> real \<Rightarrow> pyfloat" where
  "float_scale NaN r = NaN"
| "float_scale (Finite x) r = Finite (x * r)"
| "float_scale PosInf r = (if r = 0 then NaN else if 0 < r then PosInf else NegInf)"
| "float_scale NegInf r = (if r = 0 then NaN else if 0 < r then NegInf else PosInf)"

definition uniform :: "pyfloat \<Rightarrow> pyfloat \<Rightarrow> real \<Rightarrow> pyfloat" where
  "uniform a b r = float_add a (float_scale (float_sub b a) r)"

text \<open>
  \<^verbatim>\<open>time.sleep(secs)\<close> raises \<^verbatim>\<open>ValueError\<close> for NaN, \<^verbatim>\<open>OverflowError\<close> for a duration
  that the clock type does not hold (the infinities among them), and \<^verbatim>\<open>ValueError\<close> for a
  negative one; otherwise it returns after the pause. The result is the exception, if any.
\<close>

definition time_sleep :: "runtime \<Rightarrow> pyfloat \<Rightarrow> py_exn option" where
  "time_sleep rt secs =
     (case secs of
        NaN \<Rightarrow> Some ValueError
      | PosInf \<Rightarrow> Some OverflowError
      | NegInf \<Rightarrow> Some OverflowError
      | Finite x \<Rightarrow>
          if sleep_limit rt < x \<or> x < - sleep_limit rt then Some OverflowError
          else if x < 0 then Some ValueError
          else None)"

section \<open>The network and the process state\<close>

text \<open>
  \<^verbatim>\<open>session.get\<close> is the requests library's. A call either raises a
  \<^verbatim>\<open>requests.RequestException\<close> (the base class of every exception the library raises) or
  returns a response. Of a response the code reads the status code, \<^verbatim>\<open>response.text\<close>
  (\<open>text_declared\<close>, decoded with the encoding the server declared),
  and in \<^verbatim>\<open>request_detail\<close> the text read again after the assignment
  \<^verbatim>\<open>response.encoding = response.apparent_encoding or response.encoding\<close>, which decodes
  the same bytes anew.
\<close>

record response =
  status_code :: int
  text_declared :: ustr
  text_redecoded :: ustr

datatype get_result = Network_error nat | Response response

text \<open>
  The effects of the code on the outside, in the order they happen: the three call sites
  of \<^verbatim>\<open>session.get\<close> and the three of \<^verbatim>\<open>time.sleep\<close>.
\<close>

datatype event =
    Warmup_get ustr
  | Detail_get ustr
  | Html_get ustr
  | Sleep_retry
  | Sleep_uniform pyfloat pyfloat

text \<open>
  The state of one process: \<open>net\<close> is what the network answers to the first, second, ...
  call of \<^verbatim>\<open>session.get\<close>, \<open>calls\<close> counts the calls made, \<open>log\<close> lists the effects so far,
  and \<open>prewarmed\<close> is the set \<^verbatim>\<open>request_detail._prewarmed\<close> (the attribute is created
  empty on first use, so a set that is empty when the process starts).
\<close>

record world =
  net :: "nat \<Rightarrow> get_result"
  calls :: nat
  log :: "event list"
  prewarmed :: "ustr set"

definition session_get :: "event \<Rightarrow> world \<Rightarrow> get_result \<times> world" where
  "session_get ev w = (net w (calls w), w\<lparr>calls := Suc (calls w), log := log w @ [ev]\<rparr>)"

definition sleep :: "event \<Rightarrow> world \<Rightarrow> world" where
  "sleep ev w = w\<lparr>log := log w @ [ev]\<rparr>"

section \<open>detail\_scraper.py: request\_detail\<close>

text \<open>
  The two signatures of an anti-bot page: U+8BBF U+95EE U+9A8C U+8BC1, and
  U+8BF7 U+5F00 U+542F followed by \<^verbatim>\<open>JavaScript\<close>.
\<close>

definition is_blocked :: "ustr \<Rightarrow> bool" where
  "is_blocked text' =
     (str_in [0x8BBF, 0x95EE, 0x9A8C, 0x8BC1] text' \<or>
      str_in ([0x8BF7, 0x5F00, 0x542F] @ ascii ''JavaScript'') text')"

text \<open>
  \<^verbatim>\<open>
  for attempt in range(retries):
      headers = {...}
      try:
          response = session.get(url, headers=headers, timeout=8)
          if response.status_code == 200 and response.text:
              response.encoding = response.apparent_encoding or response.encoding
              text = response.text
              if <blocked signature> in text:
                  raise RuntimeError("Blocked by anti-bot verification")
              return text
      except requests.RequestException as exc:
          last_exc = exc
      time.sleep(1 + random.random())
  if last_exc:
      raise last_exc
  raise RuntimeError(f"Failed to fetch detail page after {retries} attempts: {url}")
  \<close>
  The third argument counts the iterations left. The \<^verbatim>\<open>RuntimeError\<close> raised inside
  \<^verbatim>\<open>try\<close> is not a \<^verbatim>\<open>RequestException\<close>, so the \<^verbatim>\<open>except\<close> clause does not catch it.
\<close>

fun request_loop :: "ustr \<Rightarrow> int \<Rightarrow> nat \<Rightarrow> py_exn option \<Rightarrow> world \<Rightarrow> (py_exn + ustr) \<times> world" where
  "request_loop url retries 0 last_exc w =
     (case last_exc of
        Some exc \<Rightarrow> (Inl exc, w)
      | None \<Rightarrow> (Inl (RuntimeError (Failed_to_fetch_detail_page retries url)), w))"
| "request_loop url retries (Suc n) last_exc w =
     (case session_get (Detail_get url) w of
        (Network_error exc, w') \<Rightarrow>
          request_loop url retries n (Some (RequestException exc)) (sleep Sleep_retry w')
      | (Response r, w') \<Rightarrow>
          if status_code r = 200 \<and> text_declared r \<noteq> [] then
            (if is_blocked (text_redecoded r)
             then (Inl (RuntimeError Blocked_by_anti_bot_verification), w')
             else (Inr (text_redecoded r), w'))
          else request_loop url retries n last_exc (sleep Sleep_retry w'))"

text \<open>
  \<^verbatim>\<open>
  if domain not in request_detail._prewarmed:
      try:
          session.get(referer, headers=warmup_headers, timeout=6)
      except requests.RequestException:
          pass
      request_detail._prewarmed.add(domain)
  \<close>
  Whatever the call gives, a response or a network exception, is dropped.
\<close>

definition prewarm :: "ustr \<Rightarrow> ustr \<Rightarrow> world \<Rightarrow> world" where
  "prewarm domain referer w =
     (if domain \<notin> prewarmed w
      then (let (_, w') = session_get (Warmup_get referer) w
            in w'\<lparr>prewarmed := insert domain (prewarmed w')\<rparr>)
      else w)"

text \<open>
  \<^verbatim>\<open>request_detail(url, session, retries)\<close>. \<open>pool\<close> is the global \<^verbatim>\<open>USER_AGENT_POOL\<close>, read
  from a data file: \<^verbatim>\<open>random.choice\<close> raises \<^verbatim>\<open>IndexError\<close> on an empty pool, first when
  \<^verbatim>\<open>warmup_headers\<close> is built. The header values do not influence the control flow.
  \<^verbatim>\<open>range(retries)\<close> is empty for \<^verbatim>\<open>retries <= 0\<close>.
\<close>

definition domain_of :: "ustr \<times> ustr \<Rightarrow> ustr" where
  "domain_of parsed = fst parsed @ ascii ''://'' @ snd parsed"

definition referer_of :: "ustr \<Rightarrow> ustr" where
  "referer_of domain = domain @ ascii ''/ershoufang/''"

definition request_detail :: "runtime \<Rightarrow> ustr list \<Rightarrow> ustr \<Rightarrow> int \<Rightarrow> world \<Rightarrow> (py_exn + ustr) \<times> world" where
  "request_detail rt pool url retries w =
     (case urlparse rt url of
        None \<Rightarrow> (Inl ValueError, w)
      | Some parsed \<Rightarrow>
          let domain = domain_of parsed;
              referer = referer_of domain
          in if pool = [] then (Inl IndexError, w)
             else request_loop url retries (nat retries) None (prewarm domain referer w))"

section \<open>main.py: get\_html\<close>

text \<open>
  \<^verbatim>\<open>
  request_headers['User-Agent'] = (
      preferred_user_agent or headers.get('User-Agent')
      or PROFILE_USER_AGENT or random.choice(USER_AGENTS))
  \<close>
  raises \<^verbatim>\<open>IndexError\<close> when the first three are empty or absent and the list is empty.
\<close>

record agents =
  preferred_user_agent :: "ustr option"
  header_user_agent :: "ustr option"
  profile_user_agent :: ustr
  user_agents :: "ustr list"

definition falsy :: "ustr option \<Rightarrow> bool" where
  "falsy v = (v = None \<or> v = Some [])"

definition no_user_agent :: "agents \<Rightarrow> bool" where
  "no_user_agent ag =
     (falsy (preferred_user_agent ag) \<and> falsy (header_user_agent ag) \<and>
      profile_user_agent ag = [] \<and> user_agents ag = [])"

text \<open>
  \<^verbatim>\<open>
  for attempt in range(retries):
      request_headers = ...
      try:
          response = session.get(url=url, headers=request_headers, timeout=6)
          response.raise_for_status()
          return response.text
      except Exception:
          if attempt + 1 == retries:
              raise
          random_delay((0.8, 1.6))
  raise RuntimeError('Failed to retrieve html')
  \<close>
  \<^verbatim>\<open>raise_for_status\<close> raises for the status codes 400 to 599. The fourth argument counts
  the iterations left.
\<close>

definition raise_for_status :: "response \<Rightarrow> py_exn option" where
  "raise_for_status r =
     (if 400 \<le> status_code r \<and> status_code r < 600 then Some (HTTPError (status_code r)) else None)"

fun get_html_loop :: "agents \<Rightarrow> ustr \<Rightarrow> int \<Rightarrow> nat \<Rightarrow> nat \<Rightarrow> world \<Rightarrow> (py_exn + ustr) \<times> world" where
  "get_html_loop ag url retries attempt 0 w = (Inl (RuntimeError Failed_to_retrieve_html), w)"
| "get_html_loop ag url retries attempt (Suc n) w =
     (if no_user_agent ag then (Inl IndexError, w)
      else
        (case session_get (Html_get url) w of
           (Network_error exc, w') \<Rightarrow>
             if int attempt + 1 = retries then (Inl (RequestException exc), w')
             else get_html_loop ag url retries (Suc attempt) n
                    (sleep (Sleep_uniform (Finite (4 / 5)) (Finite (8 / 5))) w')
         | (Response r, w') \<Rightarrow>
             (case raise_for_status r of
                Some exc \<Rightarrow>
                  if int attempt + 1 = retries then (Inl exc, w')
                  else get_html_loop ag url retries (Suc attempt) n
                         (sleep (Sleep_uniform (Finite (4 / 5)) (Finite (8 / 5))) w')
              | None \<Rightarrow> (Inr (text_declared r), w'))))"

definition get_html :: "agents \<Rightarrow> ustr \<Rightarrow> int \<Rightarrow> world \<Rightarrow> (py_exn + ustr) \<times> world" where
  "get_html ag url retries w = get_html_loop ag url retries 0 (nat retries) w"

section \<open>Vocabulary for the properties of the fetchers\<close>

text \<open>
  What one attempt of \<^verbatim>\<open>request_detail\<close> can meet. A plain failure is an attempt that
  neither returns nor raises: a network exception, a status other than 200, or an empty
  body. A blocked page and a good page both have status 200 and a non-empty body.
\<close>

definition plain_failure :: "get_result \<Rightarrow> bool" where
  "plain_failure g =
     (case g of
        Network_error _ \<Rightarrow> True
      | Response r \<Rightarrow> \<not> (status_code r = 200 \<and> text_declared r \<noteq> []))"

definition blocked_page :: "get_result \<Rightarrow> bool" where
  "blocked_page g =
     (case g of
        Network_error _ \<Rightarrow> False
      | Response r \<Rightarrow> status_code r = 200 \<and> text_declared r \<noteq> [] \<and> is_blocked (text_redecoded r))"

definition good_page :: "get_result \<Rightarrow> bool" where
  "good_page g =
     (case g of
        Network_error _ \<Rightarrow> False
      | Response r \<Rightarrow> status_code r = 200 \<and> text_declared r \<noteq> [] \<and> \<not> is_blocked (text_redecoded r))"

definition body_of :: "get_result \<Rightarrow> ustr" where
  "body_of g = (case g of Network_error _ \<Rightarrow> [] | Response r \<Rightarrow> text_redecoded r)"

text \<open>The last network exception among the calls \<open>c, ..., c + k - 1\<close>, or \<open>acc\<close> if there is none.\<close>

fun last_network_error :: "(nat \<Rightarrow> get_result) \<Rightarrow> nat \<Rightarrow> nat \<Rightarrow> py_exn option \<Rightarrow> py_exn option" where
  "last_network_error nt c 0 acc = acc"
| "last_network_error nt c (Suc k) acc =
     last_network_error nt (Suc c) k
       (case nt c of Network_error exc \<Rightarrow> Some (RequestException exc) | Response _ \<Rightarrow> acc)"

text \<open>The state after \<open>k\<close> attempts that were each followed by the retry sleep.\<close>

definition after_attempts :: "ustr \<Rightarrow> nat \<Rightarrow> world \<Rightarrow> world" where
  "after_attempts url k w =
     w\<lparr>calls := calls w + k,
       log := log w @ concat (replicate k [Detail_get url, Sleep_retry])\<rparr>"

text \<open>The state after one more attempt, with no sleep after it.\<close>

definition after_get :: "event \<Rightarrow> world \<Rightarrow> world" where
  "after_get ev w = w\<lparr>calls := Suc (calls w), log := log w @ [ev]\<rparr>"

text \<open>For \<^verbatim>\<open>get_html\<close>, an attempt raises on a network exception or a status from 400 to 599.\<close>

definition html_raises :: "get_result \<Rightarrow> py_exn option" where
  "html_raises g =
     (case g of
        Network_error exc \<Rightarrow> Some (RequestException exc)
      | Response r \<Rightarrow> raise_for_status r)"

definition after_html_attempts :: "ustr \<Rightarrow> nat \<Rightarrow> world \<Rightarrow> world" where
  "after_html_attempts url k w =
     w\<lparr>calls := calls w + k,
       log := log w @
         concat (replicate k [Html_get url, Sleep_uniform (Finite (4 / 5)) (Finite (8 / 5))])\<rparr>"

text \<open>A sequence of calls of \<^verbatim>\<open>request_detail\<close> in one process; the caller goes on after an exception.\<close>

fun run_requests :: "runtime \<Rightarrow> ustr list \<Rightarrow> (ustr \<times> int) list \<Rightarrow> world \<Rightarrow> world" where
  "run_requests rt pool [] w = w"
| "run_requests rt pool ((url, retries) # reqs) w =
     run_requests rt pool reqs (snd (request_detail rt pool url retries w))"

section \<open>detail\_scraper.py: filtrate and parse\_detail\<close>

text \<open>\<^verbatim>\<open>filtrate\<close> keeps the characters that \<^verbatim>\<open>char.encode("GBK")\<close> accepts.\<close>

definition filtrate :: "runtime \<Rightarrow> ustr \<Rightarrow> ustr" where
  "filtrate rt data = filter (gbk_encodable rt) data"

text \<open>
  The values of the dictionaries that the merge step handles. \<^verbatim>\<open>merge_detail\<close> and
  \<^verbatim>\<open>write_csv\<close> test the type of a value at run time, so a value is a string, a list
  of strings, \<^verbatim>\<open>None\<close>, or any other object, which the code only passes to
  \<^verbatim>\<open>str\<close> and which is represented by that text.
\<close>

datatype pyval = Str ustr | StrList "ustr list" | NoneVal | Other ustr

text \<open>
  The dictionary keys: the status key U+89E3 U+6790 U+72B6 U+6001, and the three fixed
  keys that \<^verbatim>\<open>parse_detail\<close> writes (tags, transaction attributes, layout), which are the
  first and the last two entries of \<^verbatim>\<open>DETAIL_COLUMNS\<close>.
\<close>

definition status_key :: ustr where
  "status_key = [0x89E3, 0x6790, 0x72B6, 0x6001]"

definition tags_key :: ustr where
  "tags_key = [0x623F, 0x6E90, 0x6807, 0x7B7E]"

definition transaction_key :: ustr where
  "transaction_key = [0x4EA4, 0x6613, 0x5C5E, 0x6027]"

definition layout_key :: ustr where
  "layout_key = [0x6237, 0x578B, 0x5206, 0x95F4]"

text \<open>The two phrases of a page that asks for a login, ten characters each.\<close>

definition login_marker_1 :: ustr where
  "login_marker_1 = [0x767B, 0x5F55, 0x67E5, 0x770B, 0x66F4, 0x591A, 0x623F, 0x6E90, 0x4FE1, 0x606F]"

definition login_marker_2 :: ustr where
  "login_marker_2 = [0x9700, 0x767B, 0x5F55, 0x540E, 0x67E5, 0x770B, 0x5B8C, 0x6574, 0x4FE1, 0x606F]"

text \<open>
  A parsed detail page, seen through the XPath queries of \<^verbatim>\<open>parse_detail\<close>: the texts of
  the tag links; for each section the texts of its name and of its content; for each
  transaction item the texts of its label and of its further spans; for each layout row
  the texts of each of its columns.
\<close>

record detail_tree =
  tag_texts :: "ustr list"
  sections :: "(ustr list \<times> ustr list) list"
  transaction_items :: "(ustr list \<times> ustr list) list"
  layout_rows :: "ustr list list list"

text \<open>
  \<^verbatim>\<open>
  for section in sections:
      title = ''.join(section.xpath(...)).strip()
      content = ''.join(section.xpath(...)).strip()
      if title and content:
          detail_data[title] = content
  \<close>
\<close>

fun sections_loop :: "runtime \<Rightarrow> (ustr list \<times> ustr list) list \<Rightarrow> (ustr, pyval) dict \<Rightarrow> (ustr, pyval) dict" where
  "sections_loop rt [] detail_data = detail_data"
| "sections_loop rt ((names, contents) # rest) detail_data =
     (let title = strip rt (concat names);
          content = strip rt (concat contents)
      in sections_loop rt rest
           (if title \<noteq> [] \<and> content \<noteq> [] then AList.update title (Str content) detail_data
            else detail_data))"

text \<open>
  \<^verbatim>\<open>
  for item in transaction_items:
      label = ''.join(item.xpath(...)).strip()
      value = ''.join(item.xpath(...)).strip()
      if label and value:
          detail_data[label] = value
          transaction_pairs.append(f"{label}:{value}")
  \<close>
  The loop returns the dictionary and the list of pairs.
\<close>

fun transaction_loop :: "runtime \<Rightarrow> (ustr list \<times> ustr list) list \<Rightarrow> (ustr, pyval) dict \<Rightarrow> ustr list \<Rightarrow>
    (ustr, pyval) dict \<times> ustr list" where
  "transaction_loop rt [] detail_data transaction_pairs = (detail_data, transaction_pairs)"
| "transaction_loop rt ((labels, vals) # rest) detail_data transaction_pairs =
     (let label = strip rt (concat labels);
          val = strip rt (concat vals)
      in if label \<noteq> [] \<and> val \<noteq> []
         then transaction_loop rt rest (AList.update label (Str val) detail_data)
                (transaction_pairs @ [label @ ascii '':'' @ val])
         else transaction_loop rt rest detail_data transaction_pairs)"

text \<open>
  \<^verbatim>\<open>
  for layout_row in layout_rows:
      cols = [''.join(col.xpath('.//text()')).strip() for col in layout_row.xpath(...)]
      cols = [col for col in cols if col]
      if cols:
          layout_items.append(' / '.join(cols))
  \<close>
\<close>

fun layout_loop :: "runtime \<Rightarrow> ustr list list list \<Rightarrow> ustr list \<Rightarrow> ustr list" where
  "layout_loop rt [] layout_items = layout_items"
| "layout_loop rt (layout_row # rest) layout_items =
     (let cols = filter (\<lambda>col. col \<noteq> []) (map (\<lambda>col. strip rt (concat col)) layout_row)
      in layout_loop rt rest
           (if cols \<noteq> [] then layout_items @ [join (ascii '' / '') cols] else layout_items))"

text \<open>
  \<^verbatim>\<open>
  tree = etree.HTML(html)
  if tree is None:
      return {}
  if <login marker 1> in html or <login marker 2> in html:
      return {<status key>: 'login_required'}
  ...
  \<close>
  An exception of \<^verbatim>\<open>etree.HTML\<close> is not caught here. The check for an empty tree comes
  before the check for the login markers.
\<close>

definition parse_detail :: "runtime \<Rightarrow> (ustr \<Rightarrow> detail_tree parsed) \<Rightarrow> ustr \<Rightarrow> py_exn + (ustr, pyval) dict" where
  "parse_detail rt HTML html =
     (case HTML html of
        Parse_raises \<Rightarrow> Inl LxmlError
      | Parse_none \<Rightarrow> Inr []
      | Parse_tree tree \<Rightarrow>
          if str_in login_marker_1 html \<or> str_in login_marker_2 html
          then Inr [(status_key, Str (ascii ''login_required''))]
          else
            (let tags' = stripped_nonempty rt (tag_texts tree);
                 d1 = (if tags' \<noteq> [] then AList.update tags_key (Str (join (ascii '' | '') tags')) []
                       else []);
                 d2 = sections_loop rt (sections tree) d1;
                 (d3, transaction_pairs) = transaction_loop rt (transaction_items tree) d2 [];
                 d4 = (if transaction_pairs \<noteq> []
                       then AList.update transaction_key (Str (join (ascii '' | '') transaction_pairs)) d3
                       else d3);
                 layout_items = layout_loop rt (layout_rows tree) [];
                 d5 = (if layout_items \<noteq> []
                       then AList.update layout_key (Str (join (ascii '' ; '') layout_items)) d4
                       else d4)
             in Inr d5))"

section \<open>detail\_scraper.py: rows\<close>

text \<open>
  \<^verbatim>\<open>BASE_COLUMNS\<close> and \<^verbatim>\<open>DETAIL_COLUMNS\<close>, sixteen names each, by code point and in the
  order of the source.
\<close>

definition BASE_COLUMNS :: "ustr list" where
  "BASE_COLUMNS =
     [[0x6807, 0x9898], [0x5730, 0x5740], [0x6237, 0x578B], [0x9762, 0x79EF], [0x671D, 0x5411],
      [0x88C5, 0x4FEE, 0x60C5, 0x51B5], [0x5C42, 0x6570], [0x5EFA, 0x9020, 0x65F6, 0x95F4],
      [0x697C, 0x578B], [0x603B, 0x4EF7], [0x6BCF, 0x5E73, 0x7C73, 0x5355, 0x4EF7],
      [0x5173, 0x6CE8, 0x4EBA, 0x6570], [0x5E26, 0x770B, 0x6B21, 0x6570],
      [0x53D1, 0x5E03, 0x65F6, 0x95F4], [0x6807, 0x7B7E], [0x8BE6, 0x60C5, 0x94FE, 0x63A5]]"

definition DETAIL_COLUMNS :: "ustr list" where
  "DETAIL_COLUMNS =
     [[0x623F, 0x6E90, 0x6807, 0x7B7E],
      [0x6838, 0x5FC3, 0x5356, 0x70B9],
      [0x5C0F, 0x533A, 0x4ECB, 0x7ECD],
      [0x5468, 0x8FB9, 0x914D, 0x5957],
      [0x4EA4, 0x901A, 0x51FA, 0x884C],
      [0x7A0E, 0x8D39, 0x89E3, 0x6790],
      [0x6743, 0x5C5E, 0x62B5, 0x62BC],
      [0x4E0A, 0x6B21, 0x4EA4, 0x6613],
      [0x6302, 0x724C, 0x65F6, 0x95F4],
      [0x4EA4, 0x6613, 0x6743, 0x5C5E],
      [0x623F, 0x5C4B, 0x7528, 0x9014],
      [0x623F, 0x5C4B, 0x5E74, 0x9650],
      [0x4EA7, 0x6743, 0x6240, 0x5C5E],
      [0x62B5, 0x62BC, 0x4FE1, 0x606F],
      [0x4EA4, 0x6613, 0x5C5E, 0x6027],
      [0x6237, 0x578B, 0x5206, 0x95F4]]"

definition link_key :: ustr where
  "link_key = [0x8BE6, 0x60C5, 0x94FE, 0x63A5]"

text \<open>\<^verbatim>\<open>x or ''\<close> for a value that is a string or \<^verbatim>\<open>None\<close> (or a missing key).\<close>

definition or_empty :: "ustr option \<Rightarrow> ustr" where
  "or_empty v = (case v of None \<Rightarrow> [] | Some s \<Rightarrow> s)"

text \<open>
  \<^verbatim>\<open>build_base_row(info)\<close>. The input is a listing as \<^verbatim>\<open>extract\<close> writes it and the
  JSON file gives it back: \<^verbatim>\<open>details\<close> and \<^verbatim>\<open>price\<close> are dictionaries, \<^verbatim>\<open>tags\<close> is
  a list of strings, every other field is a string or \<^verbatim>\<open>None\<close>. The sixteen entries are
  those of the dict literal, in its order; every value is a string.
\<close>

definition build_base_row :: "listing \<Rightarrow> (ustr, pyval) dict" where
  "build_base_row info =
     zip BASE_COLUMNS
       (map Str
         [or_empty (title info),
          location info,
          or_empty (map_of (details info) ''configuration''),
          or_empty (map_of (details info) ''area''),
          or_empty (map_of (details info) ''towards''),
          or_empty (map_of (details info) ''decorate''),
          or_empty (map_of (details info) ''storey''),
          or_empty (map_of (details info) ''period''),
          or_empty (map_of (details info) ''categorie''),
          or_empty (total_price (price info)),
          or_empty (unit_price (price info)),
          or_empty (follow_count info),
          or_empty (visit_count info),
          or_empty (publish_time info),
          join (ascii '' | '') (tags info),
          or_empty (link info)])"

text \<open>
  \<^verbatim>\<open>
  value = detail_data.get(column, '')
  if isinstance(value, list):
      value = ' | '.join(value)
  if isinstance(value, str):
      row[column] = filtrate(value.strip())
  else:
      row[column] = str(value) if value is not None else ''
  \<close>
\<close>

definition merged_value :: "runtime \<Rightarrow> pyval \<Rightarrow> pyval" where
  "merged_value rt v =
     (case v of
        StrList xs \<Rightarrow> Str (filtrate rt (strip rt (join (ascii '' | '') xs)))
      | Str s \<Rightarrow> Str (filtrate rt (strip rt s))
      | NoneVal \<Rightarrow> Str []
      | Other s \<Rightarrow> Str s)"

definition get_or :: "(ustr, pyval) dict \<Rightarrow> ustr \<Rightarrow> pyval \<Rightarrow> pyval" where
  "get_or d k dflt = (case map_of d k of None \<Rightarrow> dflt | Some v \<Rightarrow> v)"

fun merge_columns :: "runtime \<Rightarrow> ustr list \<Rightarrow> (ustr, pyval) dict \<Rightarrow> (ustr, pyval) dict \<Rightarrow> (ustr, pyval) dict" where
  "merge_columns rt [] detail_data row = row"
| "merge_columns rt (column # columns) detail_data row =
     merge_columns rt columns detail_data
       (AList.update column (merged_value rt (get_or detail_data column (Str []))) row)"

text \<open>
  \<^verbatim>\<open>merge_detail(row, detail_data)\<close> changes \<^verbatim>\<open>row\<close> in place; the model returns the new row.
\<close>

definition merge_detail :: "runtime \<Rightarrow> (ustr, pyval) dict \<Rightarrow> (ustr, pyval) dict \<Rightarrow> (ustr, pyval) dict" where
  "merge_detail rt row detail_data =
     merge_columns rt DETAIL_COLUMNS detail_data
       (case map_of detail_data status_key of
          Some status \<Rightarrow> AList.update status_key status row
        | None \<Rightarrow> row)"

text \<open>
  What \<^verbatim>\<open>write_csv\<close> does to a row before writing it:
  \<^verbatim>\<open>
  for column in headers:
      row.setdefault(column, '')
      if isinstance(row[column], str):
          row[column] = filtrate(row[column])
  \<close>
  with \<^verbatim>\<open>headers = list(BASE_COLUMNS + DETAIL_COLUMNS) + [<status key>]\<close>.
\<close>

definition headers :: "ustr list" where
  "headers = BASE_COLUMNS @ DETAIL_COLUMNS @ [status_key]"

fun csv_columns :: "runtime \<Rightarrow> ustr list \<Rightarrow> (ustr, pyval) dict \<Rightarrow> (ustr, pyval) dict" where
  "csv_columns rt [] row = row"
| "csv_columns rt (column # columns) row =
     csv_columns rt columns
       (AList.update column
          (case get_or row column (Str []) of Str s \<Rightarrow> Str (filtrate rt s) | v \<Rightarrow> v) row)"

definition csv_row :: "runtime \<Rightarrow> (ustr, pyval) dict \<Rightarrow> (ustr, pyval) dict" where
  "csv_row rt row = csv_columns rt headers row"

section \<open>detail\_scraper.py: the loop of main\<close>

text \<open>\<^verbatim>\<open>row[<status key>] = f"failed: {exc}"[:120]\<close>\<close>

definition mark_failed :: "runtime \<Rightarrow> py_exn \<Rightarrow> (ustr, pyval) dict \<Rightarrow> (ustr, pyval) dict" where
  "mark_failed rt exc row =
     AList.update status_key (Str (take 120 (ascii ''failed: '' @ exn_str rt exc))) row"

text \<open>
  \<^verbatim>\<open>
  try:
      html = request_detail(url, session)
      detail_data = parse_detail(html)
      merge_detail(row, detail_data)
  except Exception as exc:
      row[<status key>] = f"failed: {exc}"[:120]
  \<close>
  \<^verbatim>\<open>request_detail\<close> is called with its default of three attempts.
\<close>

definition fetch_and_merge :: "runtime \<Rightarrow> ustr list \<Rightarrow> (ustr \<Rightarrow> detail_tree parsed) \<Rightarrow> ustr \<Rightarrow>
    (ustr, pyval) dict \<Rightarrow> world \<Rightarrow> (ustr, pyval) dict \<times> world" where
  "fetch_and_merge rt pool HTML url row w =
     (case request_detail rt pool url 3 w of
        (Inl exc, w') \<Rightarrow> (mark_failed rt exc row, w')
      | (Inr html, w') \<Rightarrow>
          (case parse_detail rt HTML html of
             Inl exc \<Rightarrow> (mark_failed rt exc row, w')
           | Inr detail_data \<Rightarrow> (merge_detail rt row detail_data, w')))"

text \<open>
  \<^verbatim>\<open>
  for index, info in enumerate(infos, start=1):
      row = build_base_row(info)
      url = row[<link key>]
      if not url:
          rows.append(row)
          continue
      <fetch and merge>
      rows.append(row)
      if index != len(infos):
          time.sleep(random.uniform(min_delay, max_delay))
  \<close>
  \<open>n\<close> is \<^verbatim>\<open>len(infos)\<close>. The link is a string in every row that \<^verbatim>\<open>build_base_row\<close>
  returns. \<open>rnd index\<close> is the value that \<^verbatim>\<open>random.random()\<close> returns inside
  \<^verbatim>\<open>random.uniform\<close> in the iteration \<open>index\<close>. The pause is outside the \<^verbatim>\<open>try\<close>, so an
  exception of \<^verbatim>\<open>time.sleep\<close> ends the loop and \<^verbatim>\<open>main\<close>.
\<close>

definition row_link :: "(ustr, pyval) dict \<Rightarrow> ustr" where
  "row_link row = (case map_of row link_key of Some (Str url) \<Rightarrow> url | _ \<Rightarrow> [])"

fun detail_loop :: "runtime \<Rightarrow> ustr list \<Rightarrow> (ustr \<Rightarrow> detail_tree parsed) \<Rightarrow> (nat \<Rightarrow> real) \<Rightarrow>
    pyfloat \<times> pyfloat \<Rightarrow> nat \<Rightarrow> nat \<Rightarrow> listing list \<Rightarrow> (ustr, pyval) dict list \<Rightarrow> world \<Rightarrow>
    (py_exn + (ustr, pyval) dict list) \<times> world" where
  "detail_loop rt pool HTML rnd window n index [] rows w = (Inr rows, w)"
| "detail_loop rt pool HTML rnd window n index (info # infos) rows w =
     (let row = build_base_row info;
          url = row_link row
      in if url = [] then detail_loop rt pool HTML rnd window n (Suc index) infos (rows @ [row]) w
         else
           (let (row', w') = fetch_and_merge rt pool HTML url row w
            in if index \<noteq> n then
                 (case time_sleep rt (uniform (fst window) (snd window) (rnd index)) of
                    Some exc \<Rightarrow> (Inl exc, w')
                  | None \<Rightarrow>
                      detail_loop rt pool HTML rnd window n (Suc index) infos (rows @ [row'])
                        (sleep (Sleep_uniform (fst window) (snd window)) w'))
               else detail_loop rt pool HTML rnd window n (Suc index) infos (rows @ [row']) w'))"

text \<open>
  \<^verbatim>\<open>main\<close>, from the loaded list on: the delay window, the optional \<^verbatim>\<open>--user-agent\<close> that
  replaces the pool, the optional \<^verbatim>\<open>--limit\<close> (\<^verbatim>\<open>infos[:limit]\<close>, which for a negative
  limit drops that many listings from the end), the loop, and the rows as
  \<^verbatim>\<open>write_csv\<close> writes them. When the loop ends with an exception nothing is written.
\<close>

record args =
  arg_min_delay :: pyfloat
  arg_max_delay :: pyfloat
  arg_limit :: "int option"
  arg_user_agent :: "ustr option"

definition slice_to :: "int \<Rightarrow> 'a list \<Rightarrow> 'a list" where
  "slice_to n xs = (if 0 \<le> n then take (nat n) xs else take (length xs - nat (- n)) xs)"

definition detail_main :: "runtime \<Rightarrow> ustr list \<Rightarrow> (ustr \<Rightarrow> detail_tree parsed) \<Rightarrow> (nat \<Rightarrow> real) \<Rightarrow> args \<Rightarrow>
    listing list \<Rightarrow> world \<Rightarrow> (py_exn + (ustr, pyval) dict list) \<times> world" where
  "detail_main rt pool HTML rnd a loaded w =
     (let window = delay_window (arg_min_delay a) (arg_max_delay a);
          pool' = (if falsy (arg_user_agent a) then pool else [or_empty (arg_user_agent a)]);
          infos = (case arg_limit a of
                     None \<Rightarrow> loaded
                   | Some n \<Rightarrow> if n = 0 then loaded else slice_to n loaded)
      in case detail_loop rt pool' HTML rnd window (length infos) 1 infos [] w of
           (Inl exc, w') \<Rightarrow> (Inl exc, w')
         | (Inr rows, w') \<Rightarrow> (Inr (map (csv_row rt) rows), w'))"

section \<open>Sample inputs\<close>

text \<open>
  A runtime for evaluating the model: the ASCII part of the three tables (GBK encodes
  every ASCII character; the samples use no other character that it encodes), a
  \<^verbatim>\<open>urlparse\<close> that finds the scheme before \<^verbatim>\<open>://\<close> and the netloc up to the next
  \<^verbatim>\<open>/\<close>, kept as it is written, one text for every exception, and the limit of a
  64-bit count of nanoseconds.
\<close>

definition sample_urlparse :: "ustr \<Rightarrow> (ustr \<times> ustr) option" where
  "sample_urlparse url =
     (case split url (ascii ''://'') of
        scheme # rest # _ \<Rightarrow> Some (scheme, takeWhile (\<lambda>c. c \<noteq> 47) rest)
      | _ \<Rightarrow> Some ([], []))"

definition ascii_tables :: runtime where
  "ascii_tables =
     \<lparr>isdigit = (\<lambda>c. 48 \<le> c \<and> c \<le> 57),
      isspace = (\<lambda>c. c = 32 \<or> (9 \<le> c \<and> c \<le> 13)),
      gbk_encodable = (\<lambda>c. c < 128),
      urlparse = sample_urlparse,
      exn_str = (\<lambda>e. ascii ''error''),
      sleep_limit = 9223372036\<rparr>"

text \<open>
  A listing item with a title, a link and a price, and no text under
  \<^verbatim>\<open>div[@class="address"]/div\<close>.
\<close>

definition no_address_item :: li_node where
  "no_address_item =
     \<lparr>title_text = [ascii ''A''], position_text = [], address_text = [], price_text = [ascii ''300''],
      unit_price_attr = [], title_href = [ascii ''u''], follow_parts = [], tag_text = []\<rparr>"

text \<open>A detail-page URL, a pool of one User-Agent, and a process that has made no call yet.\<close>

definition sample_url :: ustr where
  "sample_url = ascii ''https://bj.lianjia.com/ershoufang/101.html''"

definition sample_pool :: "ustr list" where
  "sample_pool = [ascii ''Mozilla/5.0'']"

text \<open>A response with status 200 whose body reads the same before and after re-decoding.\<close>

definition page :: "ustr \<Rightarrow> get_result" where
  "page body = Response \<lparr>status_code = 200, text_declared = body, text_redecoded = body\<rparr>"

text \<open>A body with the first anti-bot signature.\<close>

definition blocked_body :: ustr where
  "blocked_body = ascii ''<html>'' @ [0x8BBF, 0x95EE, 0x9A8C, 0x8BC1] @ ascii ''</html>''"

definition fresh_process :: "(nat \<Rightarrow> get_result) \<Rightarrow> world" where
  "fresh_process answers = \<lparr>net = answers, calls = 0, log = [], prewarmed = {}\<rparr>"

text \<open>Networks, as the answers to the calls 0, 1, 2, ... of a process.\<close>

definition flaky_then_blocked :: "nat \<Rightarrow> get_result" where
  "flaky_then_blocked n = (if n = 2 then page blocked_body else Network_error 7)"

definition flaky_then_good :: "nat \<Rightarrow> get_result" where
  "flaky_then_good n = (if n = 2 then page (ascii ''<html>ok</html>'') else Network_error 7)"

definition server_errors :: "nat \<Rightarrow> get_result" where
  "server_errors n = Response \<lparr>status_code = 503, text_declared = [], text_redecoded = []\<rparr>"

definition sample_agents :: agents where
  "sample_agents =
     \<lparr>preferred_user_agent = None, header_user_agent = Some (ascii ''Mozilla/5.0''),
      profile_user_agent = [], user_agents = []\<rparr>"

definition failing_network :: "nat \<Rightarrow> get_result" where
  "failing_network n = Network_error n"

definition warmup_fails :: "nat \<Rightarrow> get_result" where
  "warmup_fails n = (if n = 0 then Network_error 7 else page (ascii ''<html>ok</html>''))"

text \<open>
  A detail page with one tag, one section, one transaction item and one layout row, and
  with the second login phrase in a paragraph after them; the results of the queries of
  \<^verbatim>\<open>parse_detail\<close> on the tree of that page.
\<close>

definition login_page :: ustr where
  \<open>login_page =
     ascii ''<html><body><div class="newwrap baseinform">'' @
     ascii ''<div class="tags"><a>near metro</a></div>'' @
     ascii ''<div class="baseattribute"><div class="name">core</div>'' @
     ascii ''<div class="content">bright rooms</div></div></div>'' @
     ascii ''<div class="transaction"><ul><li><span class="label">listed</span>'' @
     ascii ''<span>2024-01-01</span></li></ul></div>'' @
     ascii ''<div class="layout-wrapper"><div class="row"><div class="col">bedroom</div>'' @
     ascii ''<div class="col">12</div></div></div><p>'' @ login_marker_2 @
     ascii ''</p></body></html>''\<close>

definition tagged_tree :: detail_tree where
  "tagged_tree =
     \<lparr>tag_texts = [ascii ''near metro''],
      sections = [([ascii ''core''], [ascii ''bright rooms''])],
      transaction_items = [([ascii ''listed''], [ascii ''2024-01-01''])],
      layout_rows = [[[ascii ''bedroom''], [ascii ''12'']]]\<rparr>"

text \<open>
  A document that is one comment, holding the first login phrase. It has no root element,
  and \<^verbatim>\<open>etree.HTML\<close> returns \<^verbatim>\<open>None\<close> for it.
\<close>

definition comment_page :: ustr where
  "comment_page = ascii ''<!--'' @ login_marker_1 @ ascii ''-->''"

text \<open>
  What \<^verbatim>\<open>etree.HTML\<close> and the queries give for the detail pages of the samples: the two
  pages above, and a page with none of the regions otherwise.
\<close>

definition empty_tree :: detail_tree where
  "empty_tree = \<lparr>tag_texts = [], sections = [], transaction_items = [], layout_rows = []\<rparr>"

definition sample_HTML :: "ustr \<Rightarrow> detail_tree parsed" where
  "sample_HTML html =
     (if html = comment_page then Parse_none
      else if html = login_page then Parse_tree tagged_tree
      else Parse_tree empty_tree)"


text \<open>
  A detail map with the tags entry only; its text has blanks around it and, in the middle,
  the character U+1F687, which GBK does not encode.
\<close>

definition sample_detail :: "(ustr, pyval) dict" where
  "sample_detail = [(tags_key, Str (ascii ''  near '' @ [0x1F687] @ ascii ''metro ''))]"

text \<open>
  The host of \<open>sample_url\<close> written in two other ways, in capitals and with the default
  port of the scheme, and a network that answers every call with a good page.
\<close>

definition capitals_url :: ustr where
  "capitals_url = ascii ''https://BJ.lianjia.com/ershoufang/101.html''"

definition port_url :: ustr where
  "port_url = ascii ''https://bj.lianjia.com:443/ershoufang/101.html''"

definition always_ok :: "nat \<Rightarrow> get_result" where
  "always_ok n = page (ascii ''<html>ok</html>'')"

text \<open>
  A listing without a detail link, the same listing with one, the default arguments of
  the command line, and draws of \<^verbatim>\<open>random.random()\<close> that are all one half.
\<close>

definition unlinked_listing :: listing where
  "unlinked_listing =
     \<lparr>title = Some (ascii ''Flat A''), location = ascii ''Centre'',
      details = [(''area'', ascii ''89 m2'')],
      price = \<lparr>total_price = Some (ascii ''300 W''), unit_price = None\<rparr>,
      follow_count = None, visit_count = None, publish_time = None,
      tags = [ascii ''metro''], follow_info = [], link = None\<rparr>"

definition linked_listing :: listing where
  "linked_listing = unlinked_listing\<lparr>link := Some sample_url\<rparr>"

definition default_args :: args where
  "default_args =
     \<lparr>arg_min_delay = Finite (3 / 5), arg_max_delay = Finite (8 / 5),
      arg_limit = None, arg_user_agent = None\<rparr>"

definition half_draws :: "nat \<Rightarrow> real" where
  "half_draws index = 1 / 2"

section \<open>Properties of categorise\<close>

lemma categorise_values_lookup:
  "map_of (categorise_values key detail values res) k =
     (if k = key \<and> (\<exists>v \<in> set values. str_in v detail) then Some detail else map_of res k)"
  by (induction "values" arbitrary: res) (auto simp: update_conv')

lemma categorise_items_lookup:
  "map_of (categorise_items detail items res) k =
     (if \<exists>(key, values) \<in> set items. key = k \<and> (\<exists>v \<in> set values. str_in v detail)
      then Some detail else map_of res k)"
proof (induction items arbitrary: res)
  case Nil
  show ?case by simp
next
  case (Cons item items)
  obtain key vals where item: "item = (key, vals)" by (cases item)
  show ?case
    unfolding item by (auto simp: Cons.IH categorise_values_lookup)
qed

lemma categorise_loop_lookup:
  "map_of (categorise_loop ds res) k =
     (case filter (matches k) ds of [] \<Rightarrow> map_of res k | m # ms \<Rightarrow> Some (last (m # ms)))"
proof (induction ds arbitrary: res)
  case Nil
  show ?case by simp
next
  case (Cons d ds)
  show ?case
  proof (cases "matches k d")
    case True
    then have "map_of (categorise_items d features res) k = Some d"
      by (simp add: categorise_items_lookup matches_def)
    with True show ?thesis
      by (simp add: Cons.IH split: list.splits)
  next
    case False
    then have "map_of (categorise_items d features res) k = map_of res k"
      by (simp add: categorise_items_lookup matches_def)
    with False show ?thesis
      by (simp add: Cons.IH split: list.splits)
  qed
qed

text \<open>
  Claim C4. For every list of segments, an attribute \<open>k\<close> of the result holds a segment
  of the list that matches \<open>k\<close> (a segment with no keyword of \<open>k\<close> never populates \<open>k\<close>),
  and whenever some segment matches \<open>k\<close> the value kept is the raw text of the last
  matching segment of the list.
\<close>

theorem categorise_last_match_wins:
  "categorise (Some ds) = Inr res \<Longrightarrow>
     (\<forall>d. map_of res k = Some d \<longrightarrow> d \<in> set ds \<and> matches k d) \<and>
     (\<forall>d \<in> set ds. matches k d \<longrightarrow> map_of res k = Some (last (filter (matches k) ds)))"
proof -
  assume "categorise (Some ds) = Inr res"
  then have res: "res = categorise_loop ds []"
    by (simp add: categorise_def)
  have look: "map_of res k =
      (case filter (matches k) ds of [] \<Rightarrow> None | m # ms \<Rightarrow> Some (last (m # ms)))"
    unfolding res by (simp add: categorise_loop_lookup split: list.splits)
  show ?thesis
  proof (cases "filter (matches k) ds")
    case Nil
    then have "\<forall>d \<in> set ds. \<not> matches k d"
      by (simp add: filter_empty_conv)
    with Nil look show ?thesis by simp
  next
    case (Cons m ms)
    have "last (m # ms) \<in> set (filter (matches k) ds)"
      unfolding Cons [symmetric] using Cons by (metis last_in_set list.distinct(1))
    then have "last (m # ms) \<in> set ds \<and> matches k (last (m # ms))"
      by simp
    with Cons look show ?thesis by auto
  qed
qed

theorem categorise_last_match_wins_witness:
  "categorise (Some [[0x32, 0x5BA4, 0x31, 0x5385], [0x38, 0x39, 0x5E73, 0x7C73], [0x33, 0x5BA4]])
     = Inr [(''configuration'', [0x33, 0x5BA4]), (''area'', [0x38, 0x39, 0x5E73, 0x7C73])] \<and>
   matches ''configuration'' [0x32, 0x5BA4, 0x31, 0x5385] \<and>
   map_of [(''configuration'', [0x33, 0x5BA4]), (''area'', [0x38, 0x39, 0x5E73, 0x7C73])] ''configuration''
     = Some (last (filter (matches ''configuration'')
         [[0x32, 0x5BA4, 0x31, 0x5385], [0x38, 0x39, 0x5E73, 0x7C73], [0x33, 0x5BA4]]))"
proof -
  let ?d = "[0x32, 0x5BA4, 0x31, 0x5385 :: nat]"
  let ?ds = "[?d, [0x38, 0x39, 0x5E73, 0x7C73], [0x33, 0x5BA4 :: nat]]"
  let ?res = "[(''configuration'', [0x33, 0x5BA4 :: nat]), (''area'', [0x38, 0x39, 0x5E73, 0x7C73])]"
  have c: "categorise (Some ?ds) = Inr ?res"
    by (simp add: categorise_def features_def)
  have m: "matches ''configuration'' ?d"
    by (simp add: matches_def features_def)
  have "\<forall>d \<in> set ?ds. matches ''configuration'' d \<longrightarrow>
      map_of ?res ''configuration'' = Some (last (filter (matches ''configuration'') ?ds))"
    using categorise_last_match_wins [OF c, of "''configuration''"] by (rule conjunct2)
  moreover have "?d \<in> set ?ds"
    by (rule list.set_intros(1))
  ultimately have "matches ''configuration'' ?d \<longrightarrow>
      map_of ?res ''configuration'' = Some (last (filter (matches ''configuration'') ?ds))"
    by (rule bspec)
  then have "map_of ?res ''configuration'' = Some (last (filter (matches ''configuration'') ?ds))"
    using m by (rule mp)
  with c m show ?thesis
    by (intro conjI)
qed

section \<open>Properties of extract\<close>

lemma extract_item_no_address:
  "address_text li = [] \<Longrightarrow> extract_item rt li = Inl TypeError"
  unfolding extract_item_def by (simp add: categorise_def Let_def)

lemma extract_item_raises_only_TypeError:
  "extract_item rt li = Inl e \<Longrightarrow> e = TypeError \<and> address_text li = []"
  unfolding extract_item_def
  by (cases "address_text li") (auto simp: categorise_def Let_def)

lemma extract_loop_no_address:
  "\<exists>li \<in> set li_list. address_text li = [] \<Longrightarrow> extract_loop rt li_list infos = Inl TypeError"
proof (induction li_list arbitrary: infos)
  case Nil
  then show ?case by simp
next
  case (Cons li li_list)
  show ?case
  proof (cases "extract_item rt li")
    case (Inl e)
    then show ?thesis
      using extract_item_raises_only_TypeError [of rt li e] by simp
  next
    case (Inr info)
    then have "address_text li \<noteq> []"
      using extract_item_no_address [of li rt] by auto
    with Cons.prems have "\<exists>li \<in> set li_list. address_text li = []"
      by auto
    with Inr show ?thesis
      by (simp add: Cons.IH)
  qed
qed

text \<open>
  Claim C2 says that an item without the address blob never raises. The code does raise:
  when the page has an item whose address query finds no text, \<^verbatim>\<open>details\<close> is
  \<^verbatim>\<open>None\<close>, \<^verbatim>\<open>categorise(None)\<close> raises \<^verbatim>\<open>TypeError\<close>, and the exception leaves
  \<^verbatim>\<open>extract\<close>: no record of the page is returned.
\<close>

theorem extract_item_without_address_raises:
  "HTML html_code = Parse_tree li_list \<Longrightarrow> \<exists>li \<in> set li_list. address_text li = [] \<Longrightarrow>
     extract_py rt HTML html_code = Inl TypeError"
  by (auto simp: extract_py_def extract_loop_no_address)

theorem extract_item_without_address_raises_witness:
  "(\<lambda>_. Parse_tree [no_address_item]) (ascii ''<ul><li/></ul>'') = Parse_tree [no_address_item] \<and>
   (\<exists>li \<in> set [no_address_item]. address_text li = []) \<and>
   extract_py ascii_tables (\<lambda>_. Parse_tree [no_address_item]) (ascii ''<ul><li/></ul>'') = Inl TypeError"
proof -
  have a: "(\<lambda>_. Parse_tree [no_address_item]) (ascii ''<ul><li/></ul>'') = Parse_tree [no_address_item]"
    by (rule refl)
  have b: "\<exists>li \<in> set [no_address_item]. address_text li = []"
    by (simp add: no_address_item_def)
  from a b extract_item_without_address_raises [OF a b, of ascii_tables] show ?thesis
    by (intro conjI)
qed





section \<open>Properties of the delay window\<close>

lemma py_max_lower: "float_le a a \<Longrightarrow> float_le a (py_max a b)"
  by (cases a; cases b) (auto simp: py_max_def)

lemma py_max_not_nan: "a \<noteq> NaN \<Longrightarrow> py_max a b \<noteq> NaN"
  by (cases a; cases b) (auto simp: py_max_def)

lemma float_le_refl: "a \<noteq> NaN \<Longrightarrow> float_le a a"
  by (cases a) auto

text \<open>
  Claim C9. For every pair of argument values, negative ones, infinities and NaN
  included, the window satisfies \<open>0 \<le> min_delay \<le> max_delay\<close> in Python's comparison;
  and for finite arguments \<open>min_delay\<close> is the maximum of 0 and the given minimum and
  \<open>max_delay\<close> the maximum of \<open>min_delay\<close> and the given maximum.
\<close>

theorem delay_window_well_formed:
  "delay_window a b = (min_delay, max_delay) \<Longrightarrow>
     float_le (Finite 0) min_delay \<and> float_le min_delay max_delay \<and>
     min_delay = py_max (Finite 0) a \<and> max_delay = py_max min_delay b \<and>
     (\<forall>x y. a = Finite x \<and> b = Finite y \<longrightarrow>
        min_delay = Finite (max 0 x) \<and> max_delay = Finite (max (max 0 x) y))"
proof -
  assume w: "delay_window a b = (min_delay, max_delay)"
  then have lo: "min_delay = py_max (Finite 0) a" and hi: "max_delay = py_max min_delay b"
    by (auto simp: delay_window_def Let_def)
  have lo_ok: "float_le (Finite 0) min_delay"
    unfolding lo by (rule py_max_lower) simp
  have "min_delay \<noteq> NaN"
    unfolding lo by (rule py_max_not_nan) simp
  then have "float_le min_delay min_delay"
    by (rule float_le_refl)
  then have hi_ok: "float_le min_delay max_delay"
    unfolding hi by (rule py_max_lower)
  have fin: "\<forall>x y. a = Finite x \<and> b = Finite y \<longrightarrow>
      min_delay = Finite (max 0 x) \<and> max_delay = Finite (max (max 0 x) y)"
    unfolding hi lo by (auto simp: py_max_def max_def)
  from lo hi lo_ok hi_ok fin show ?thesis
    by blast
qed

theorem delay_window_well_formed_witness:
  "delay_window (Finite (- 2)) (Finite (- 5)) = (Finite 0, Finite 0) \<and>
   float_le (Finite 0) (Finite 0) \<and>
   delay_window NaN (Finite 1) = (Finite 0, Finite 1) \<and>
   float_le (Finite 0) (Finite 1)"
proof -
  have a: "delay_window (Finite (- 2)) (Finite (- 5)) = (Finite 0, Finite 0)"
    by (simp add: delay_window_def py_max_def Let_def)
  have b: "delay_window NaN (Finite 1) = (Finite 0, Finite 1)"
    by (simp add: delay_window_def py_max_def Let_def)
  from delay_window_well_formed [OF a] delay_window_well_formed [OF b] a b show ?thesis
    by simp
qed

section \<open>Properties of the fetchers\<close>

lemma after_attempts_0: "after_attempts url 0 w = w"
  by (simp add: after_attempts_def)

lemma after_attempts_Suc:
  "after_attempts url k (sleep Sleep_retry (after_get (Detail_get url) w)) = after_attempts url (Suc k) w"
  by (simp add: after_attempts_def sleep_def after_get_def)

lemma session_get_eq: "session_get ev w = (net w (calls w), after_get ev w)"
  by (simp add: session_get_def after_get_def)

lemma net_step [simp]:
  "net (sleep ev w) = net w" "net (after_get ev' w) = net w"
  "calls (sleep ev w) = calls w" "calls (after_get ev' w) = Suc (calls w)"
  by (simp_all add: sleep_def after_get_def)

lemma request_loop_failures:
  "\<forall>i<k. plain_failure (net w (calls w + i)) \<Longrightarrow>
     request_loop url retries (k + n) last_exc w =
     request_loop url retries n (last_network_error (net w) (calls w) k last_exc) (after_attempts url k w)"
proof (induction k arbitrary: w last_exc)
  case 0
  show ?case by (simp add: after_attempts_0)
next
  case (Suc k)
  let ?w1 = "sleep Sleep_retry (after_get (Detail_get url) w)"
  from Suc.prems have first: "plain_failure (net w (calls w))"
    by (metis add.right_neutral zero_less_Suc)
  have rest: "\<forall>i<k. plain_failure (net ?w1 (calls ?w1 + i))"
  proof (intro allI impI)
    fix i assume "i < k"
    then have "Suc i < Suc k" by simp
    with Suc.prems have "plain_failure (net w (calls w + Suc i))"
      by blast
    then show "plain_failure (net ?w1 (calls ?w1 + i))"
      by simp
  qed
  have step: "request_loop url retries (Suc k + n) last_exc w =
      request_loop url retries (k + n)
        (case net w (calls w) of Network_error exc \<Rightarrow> Some (RequestException exc) | Response _ \<Rightarrow> last_exc) ?w1"
    using first by (auto simp: session_get_eq plain_failure_def split: get_result.splits)
  show ?case
    unfolding step Suc.IH [OF rest] by (simp add: after_attempts_Suc)
qed

lemma prewarm_net [simp]: "net (prewarm d r w) = net w"
  by (simp add: prewarm_def session_get_def)

lemma request_detail_unfold:
  "pool \<noteq> [] \<Longrightarrow> urlparse rt url = Some parsed \<Longrightarrow>
     request_detail rt pool url retries w =
     request_loop url retries (nat retries) None
       (prewarm (domain_of parsed) (referer_of (domain_of parsed)) w)"
  by (simp add: request_detail_def Let_def)

lemma request_loop_blocked:
  "blocked_page (net w (calls w)) \<Longrightarrow>
     request_loop url retries (Suc n) last_exc w =
     (Inl (RuntimeError Blocked_by_anti_bot_verification), after_get (Detail_get url) w)"
  by (auto simp: session_get_eq blocked_page_def split: get_result.splits)

lemma request_loop_good:
  "good_page (net w (calls w)) \<Longrightarrow>
     request_loop url retries (Suc n) last_exc w =
     (Inr (body_of (net w (calls w))), after_get (Detail_get url) w)"
  by (auto simp: session_get_eq good_page_def body_of_def split: get_result.splits)

lemma after_attempts_net [simp]:
  "net (after_attempts url k w) = net w" "calls (after_attempts url k w) = calls w + k"
  by (simp_all add: after_attempts_def)

lemma request_detail_all_fail:
  assumes "pool \<noteq> []" and "urlparse rt url = Some parsed"
    and "w1 = prewarm (domain_of parsed) (referer_of (domain_of parsed)) w"
    and "\<forall>i < nat retries. plain_failure (net w (calls w1 + i))"
  shows "request_detail rt pool url retries w =
           (Inl (case last_network_error (net w) (calls w1) (nat retries) None of
                   Some exc \<Rightarrow> exc
                 | None \<Rightarrow> RuntimeError (Failed_to_fetch_detail_page retries url)),
            after_attempts url (nat retries) w1)"
proof -
  have nw: "net w1 = net w"
    unfolding assms(3) by (rule prewarm_net)
  have fails: "\<forall>i < nat retries. plain_failure (net w1 (calls w1 + i))"
    using assms(4) unfolding nw .
  have "request_detail rt pool url retries w = request_loop url retries (nat retries + 0) None w1"
    unfolding request_detail_unfold [OF assms(1,2)] assms(3) by simp
  also have "\<dots> = request_loop url retries 0
      (last_network_error (net w1) (calls w1) (nat retries) None) (after_attempts url (nat retries) w1)"
    by (rule request_loop_failures [OF fails])
  finally show ?thesis
    unfolding nw by (simp split: option.splits)
qed

lemma request_detail_good:
  assumes "pool \<noteq> []" and "urlparse rt url = Some parsed"
    and "w1 = prewarm (domain_of parsed) (referer_of (domain_of parsed)) w"
    and "k < nat retries"
    and "\<forall>i<k. plain_failure (net w (calls w1 + i))"
    and "good_page (net w (calls w1 + k))"
  shows "request_detail rt pool url retries w =
           (Inr (body_of (net w (calls w1 + k))),
            after_get (Detail_get url) (after_attempts url k w1))"
proof -
  from assms(4) obtain n where "nat retries = Suc (k + n)"
    by (blast dest: less_imp_Suc_add)
  then have n: "nat retries = k + Suc n"
    by simp
  have nw: "net w1 = net w"
    unfolding assms(3) by (rule prewarm_net)
  have fails: "\<forall>i<k. plain_failure (net w1 (calls w1 + i))"
    using assms(5) unfolding nw .
  have good: "good_page (net (after_attempts url k w1) (calls (after_attempts url k w1)))"
    using assms(6) by (simp add: nw)
  have "request_detail rt pool url retries w = request_loop url retries (k + Suc n) None w1"
    unfolding request_detail_unfold [OF assms(1,2)] assms(3) n ..
  also have "\<dots> = request_loop url retries (Suc n)
      (last_network_error (net w1) (calls w1) k None) (after_attempts url k w1)"
    by (rule request_loop_failures [OF fails])
  also have "\<dots> = (Inr (body_of (net (after_attempts url k w1) (calls (after_attempts url k w1)))),
      after_get (Detail_get url) (after_attempts url k w1))"
    by (rule request_loop_good [OF good])
  finally show ?thesis
    by (simp add: nw)
qed

lemma after_html_attempts_0: "after_html_attempts url 0 w = w"
  by (simp add: after_html_attempts_def)

lemma after_html_attempts_Suc:
  "after_html_attempts url k
     (sleep (Sleep_uniform (Finite (4 / 5)) (Finite (8 / 5))) (after_get (Html_get url) w)) =
   after_html_attempts url (Suc k) w"
  by (simp add: after_html_attempts_def sleep_def after_get_def)

lemma after_html_attempts_net [simp]:
  "net (after_html_attempts url k w) = net w" "calls (after_html_attempts url k w) = calls w + k"
  by (simp_all add: after_html_attempts_def)

lemma get_html_loop_raising:
  "\<not> no_user_agent ag \<Longrightarrow> \<forall>i<k. html_raises (net w (calls w + i)) \<noteq> None \<Longrightarrow>
   int (attempt + k) < retries \<Longrightarrow>
     get_html_loop ag url retries attempt (k + n) w =
     get_html_loop ag url retries (attempt + k) n (after_html_attempts url k w)"
proof (induction k arbitrary: w attempt)
  case 0
  show ?case by (simp add: after_html_attempts_0)
next
  case (Suc k)
  let ?w1 = "sleep (Sleep_uniform (Finite (4 / 5)) (Finite (8 / 5))) (after_get (Html_get url) w)"
  from Suc.prems(2) have first: "html_raises (net w (calls w)) \<noteq> None"
    by (metis add.right_neutral zero_less_Suc)
  have rest: "\<forall>i<k. html_raises (net ?w1 (calls ?w1 + i)) \<noteq> None"
  proof (intro allI impI)
    fix i assume "i < k"
    then have "Suc i < Suc k" by simp
    with Suc.prems(2) have "html_raises (net w (calls w + Suc i)) \<noteq> None"
      by blast
    then show "html_raises (net ?w1 (calls ?w1 + i)) \<noteq> None"
      by simp
  qed
  from Suc.prems(3) have notlast: "int attempt + 1 \<noteq> retries" and bound: "int (Suc attempt + k) < retries"
    by simp_all
  have step: "get_html_loop ag url retries attempt (Suc k + n) w =
      get_html_loop ag url retries (Suc attempt) (k + n) ?w1"
    using first notlast Suc.prems(1)
    by (auto simp: session_get_eq html_raises_def split: get_result.splits option.splits)
  show ?case
    unfolding step Suc.IH [OF Suc.prems(1) rest bound] by (simp add: after_html_attempts_Suc)
qed

lemma get_html_loop_last:
  "\<not> no_user_agent ag \<Longrightarrow> html_raises (net w (calls w)) = Some exc \<Longrightarrow> int attempt + 1 = retries \<Longrightarrow>
     get_html_loop ag url retries attempt (Suc n) w = (Inl exc, after_get (Html_get url) w)"
  by (auto simp: session_get_eq html_raises_def split: get_result.splits option.splits)

lemma get_html_loop_good:
  "\<not> no_user_agent ag \<Longrightarrow> net w (calls w) = Response r \<Longrightarrow> raise_for_status r = None \<Longrightarrow>
     get_html_loop ag url retries attempt (Suc n) w = (Inr (text_declared r), after_get (Html_get url) w)"
  by (auto simp: session_get_eq split: get_result.splits option.splits)

lemma get_html_all_raise:
  assumes "\<not> no_user_agent ag" and "0 < retries"
    and "\<forall>i < nat retries. html_raises (net w (calls w + i)) \<noteq> None"
  shows "get_html ag url retries w =
           (Inl (the (html_raises (net w (calls w + (nat retries - 1))))),
            after_get (Html_get url) (after_html_attempts url (nat retries - 1) w))"
proof -
  let ?m = "nat retries - 1"
  have m: "nat retries = ?m + Suc 0" and last: "int (0 + ?m) + 1 = retries" and bound: "int (0 + ?m) < retries"
    using assms(2) by simp_all
  have fails: "\<forall>i < ?m. html_raises (net w (calls w + i)) \<noteq> None"
    using assms(3) by simp
  have "?m < nat retries"
    using assms(2) by simp
  with assms(3) obtain exc where exc: "html_raises (net w (calls w + ?m)) = Some exc"
    by blast
  then have exc': "html_raises (net (after_html_attempts url ?m w) (calls (after_html_attempts url ?m w))) = Some exc"
    by simp
  have "get_html ag url retries w = get_html_loop ag url retries 0 (?m + Suc 0) w"
    unfolding get_html_def using m by simp
  also have "\<dots> = get_html_loop ag url retries (0 + ?m) (Suc 0) (after_html_attempts url ?m w)"
    by (rule get_html_loop_raising [OF assms(1) fails bound])
  also have "\<dots> = (Inl exc, after_get (Html_get url) (after_html_attempts url ?m w))"
    by (rule get_html_loop_last [OF assms(1) exc' last])
  finally show ?thesis
    using exc by simp
qed

lemma get_html_no_attempts:
  "retries \<le> 0 \<Longrightarrow> get_html ag url retries w = (Inl (RuntimeError Failed_to_retrieve_html), w)"
  by (simp add: get_html_def)

lemma get_html_good:
  assumes "\<not> no_user_agent ag" and "k < nat retries"
    and "\<forall>i<k. html_raises (net w (calls w + i)) \<noteq> None"
    and "net w (calls w + k) = Response r" and "raise_for_status r = None"
  shows "get_html ag url retries w =
           (Inr (text_declared r), after_get (Html_get url) (after_html_attempts url k w))"
proof -
  from assms(2) obtain n where "nat retries = Suc (k + n)"
    by (blast dest: less_imp_Suc_add)
  then have n: "nat retries = k + Suc n"
    by simp
  have bound: "int (0 + k) < retries"
    using assms(2) by simp
  have r: "net (after_html_attempts url k w) (calls (after_html_attempts url k w)) = Response r"
    using assms(4) by simp
  have "get_html ag url retries w = get_html_loop ag url retries 0 (k + Suc n) w"
    unfolding get_html_def n ..
  also have "\<dots> = get_html_loop ag url retries (0 + k) (Suc n) (after_html_attempts url k w)"
    by (rule get_html_loop_raising [OF assms(1,3) bound])
  also have "\<dots> = (Inr (text_declared r), after_get (Html_get url) (after_html_attempts url k w))"
    by (rule get_html_loop_good [OF assms(1) r assms(5)])
  finally show ?thesis .
qed

lemma sample_url_parsed:
  "urlparse ascii_tables sample_url = Some (ascii ''https'', ascii ''bj.lianjia.com'')"
  by (simp add: ascii_tables_def sample_urlparse_def split_def sample_url_def ascii_def)

lemma blocked_body_is_blocked: "is_blocked blocked_body"
  by (simp add: is_blocked_def blocked_body_def ascii_def)

lemma blocked_body_nonempty: "blocked_body \<noteq> []"
  by (simp add: blocked_body_def ascii_def)

lemma sample_pool_nonempty: "sample_pool \<noteq> []"
  by (simp add: sample_pool_def)

lemma prewarm_fresh:
  "prewarm d r (fresh_process answers) =
     \<lparr>net = answers, calls = 1, log = [Warmup_get r], prewarmed = {d}\<rparr>"
  by (simp add: prewarm_def fresh_process_def session_get_def)

text \<open>
  Claim C1, as amended. Let \<open>w1\<close> be the state after the warm-up step. When the first
  \<open>k\<close> attempts are plain failures (network exception, status other than 200, or empty
  body) and attempt \<open>k + 1\<close>, last or not, obtains a blocked body, \<^verbatim>\<open>request_detail\<close>
  raises the \<^verbatim>\<open>RuntimeError\<close> "Blocked by anti-bot verification" at once: the final
  state is that after \<open>k\<close> attempts with their sleeps and one more \<^verbatim>\<open>session.get\<close>, with
  no sleep after it and no further attempt.
\<close>

theorem request_detail_blocked_raises_at_once:
  assumes "pool \<noteq> []" and "urlparse rt url = Some parsed"
    and "w1 = prewarm (domain_of parsed) (referer_of (domain_of parsed)) w"
    and "k < nat retries"
    and "\<forall>i<k. plain_failure (net w (calls w1 + i))"
    and "blocked_page (net w (calls w1 + k))"
  shows "request_detail rt pool url retries w =
           (Inl (RuntimeError Blocked_by_anti_bot_verification),
            after_get (Detail_get url) (after_attempts url k w1))"
proof -
  from assms(4) obtain n where "nat retries = Suc (k + n)"
    by (blast dest: less_imp_Suc_add)
  then have n: "nat retries = k + Suc n"
    by simp
  have nw: "net w1 = net w"
    unfolding assms(3) by (rule prewarm_net)
  have fails: "\<forall>i<k. plain_failure (net w1 (calls w1 + i))"
    using assms(5) unfolding nw .
  have blocked: "blocked_page (net (after_attempts url k w1) (calls (after_attempts url k w1)))"
    using assms(6) by (simp add: nw)
  have "request_detail rt pool url retries w = request_loop url retries (k + Suc n) None w1"
    unfolding request_detail_unfold [OF assms(1,2)] assms(3) n ..
  also have "\<dots> = request_loop url retries (Suc n)
      (last_network_error (net w1) (calls w1) k None) (after_attempts url k w1)"
    by (rule request_loop_failures [OF fails])
  also have "\<dots> = (Inl (RuntimeError Blocked_by_anti_bot_verification),
      after_get (Detail_get url) (after_attempts url k w1))"
    by (rule request_loop_blocked [OF blocked])
  finally show ?thesis .
qed

theorem request_detail_blocked_raises_at_once_witness:
  "sample_pool \<noteq> [] \<and>
   urlparse ascii_tables sample_url = Some (ascii ''https'', ascii ''bj.lianjia.com'') \<and>
   (1 :: nat) < nat 3 \<and>
   plain_failure (flaky_then_blocked 1) \<and>
   blocked_page (flaky_then_blocked (1 + 1)) \<and>
   request_detail ascii_tables sample_pool sample_url 3 (fresh_process flaky_then_blocked) =
     (Inl (RuntimeError Blocked_by_anti_bot_verification),
      after_get (Detail_get sample_url)
        (after_attempts sample_url 1
          (prewarm (domain_of (ascii ''https'', ascii ''bj.lianjia.com''))
             (referer_of (domain_of (ascii ''https'', ascii ''bj.lianjia.com'')))
             (fresh_process flaky_then_blocked))))"
proof -
  let ?p = "(ascii ''https'', ascii ''bj.lianjia.com'')"
  let ?w = "fresh_process flaky_then_blocked"
  let ?w1 = "prewarm (domain_of ?p) (referer_of (domain_of ?p)) ?w"
  have c: "calls ?w1 = 1" and n: "net ?w = flaky_then_blocked"
    by (simp_all add: prewarm_fresh) (simp add: fresh_process_def)
  have h4: "(1 :: nat) < nat 3"
    by simp
  have h5: "\<forall>i<1. plain_failure (flaky_then_blocked (1 + i))"
    by (simp add: flaky_then_blocked_def plain_failure_def)
  have h6: "blocked_page (flaky_then_blocked (1 + 1))"
    using blocked_body_is_blocked blocked_body_nonempty
    by (simp add: flaky_then_blocked_def blocked_page_def page_def)
  have "request_detail ascii_tables sample_pool sample_url 3 ?w =
      (Inl (RuntimeError Blocked_by_anti_bot_verification),
       after_get (Detail_get sample_url) (after_attempts sample_url 1 ?w1))"
    using h5 h6
    by (intro request_detail_blocked_raises_at_once
          [OF sample_pool_nonempty sample_url_parsed refl h4]) (simp_all only: c n)
  moreover have "plain_failure (flaky_then_blocked 1)"
    by (simp add: flaky_then_blocked_def plain_failure_def)
  ultimately show ?thesis
    using sample_pool_nonempty sample_url_parsed h4 h6 by (intro conjI)
qed

text \<open>
  The claim as stated fails: with three attempts allowed and a blocked body on the first,
  the call raises after one warm-up and one attempt, and the log holds no sleep.
\<close>

theorem request_detail_blocked_counterexample:
  "fst (request_detail ascii_tables sample_pool sample_url 3 (fresh_process (\<lambda>n. page blocked_body))) =
     Inl (RuntimeError Blocked_by_anti_bot_verification) \<and>
   log (snd (request_detail ascii_tables sample_pool sample_url 3 (fresh_process (\<lambda>n. page blocked_body)))) =
     [Warmup_get (referer_of (domain_of (ascii ''https'', ascii ''bj.lianjia.com''))), Detail_get sample_url]"
proof -
  let ?w = "fresh_process (\<lambda>n. page blocked_body)"
  let ?d = "domain_of (ascii ''https'', ascii ''bj.lianjia.com'')"
  let ?w1 = "\<lparr>net = (\<lambda>n. page blocked_body), calls = 1, log = [Warmup_get (referer_of ?d)], prewarmed = {?d}\<rparr>"
  have unfold: "request_detail ascii_tables sample_pool sample_url 3 ?w =
      request_loop sample_url 3 (Suc 2) None ?w1"
    unfolding request_detail_unfold [OF sample_pool_nonempty sample_url_parsed] prewarm_fresh
    by simp
  have "blocked_page (net ?w1 (calls ?w1))"
    using blocked_body_is_blocked blocked_body_nonempty by (simp add: blocked_page_def page_def)
  then have "request_loop sample_url 3 (Suc 2) None ?w1 =
      (Inl (RuntimeError Blocked_by_anti_bot_verification), after_get (Detail_get sample_url) ?w1)"
    by (rule request_loop_blocked)
  with unfold show ?thesis
    by (simp add: after_get_def)
qed

lemma sample_agents_ok: "\<not> no_user_agent sample_agents"
  by (simp add: no_user_agent_def sample_agents_def falsy_def ascii_def)

lemma good_body_not_blocked: "\<not> is_blocked (ascii ''<html>ok</html>'')"
  by (simp add: is_blocked_def ascii_def)

text \<open>
  Claim C6, as amended. Let \<open>w1\<close> be the state after the warm-up step of
  \<^verbatim>\<open>request_detail\<close>.
  \<^item> When each of the \<^verbatim>\<open>retries\<close> attempts of \<^verbatim>\<open>request_detail\<close> is a plain failure
    (network exception, status other than 200, or empty body), the call makes exactly
    that many attempts, each followed by the sleep, and raises the last network exception
    if there was one, otherwise the \<^verbatim>\<open>RuntimeError\<close> "Failed to fetch detail page".
  \<^item> When attempt \<open>k + 1\<close> obtains a good page after \<open>k\<close> plain failures, the call
    returns that body at once and makes no further attempt.
  \<^item> When each of the \<^verbatim>\<open>retries > 0\<close> attempts of \<^verbatim>\<open>get_html\<close> raises (network exception
    or status 400 to 599), the call makes exactly that many attempts and raises the
    exception of the last one; for \<^verbatim>\<open>retries <= 0\<close> it makes none and raises the
    \<^verbatim>\<open>RuntimeError\<close> "Failed to retrieve html".
  \<^item> When attempt \<open>k + 1\<close> of \<^verbatim>\<open>get_html\<close> does not raise after \<open>k\<close> that did, the call
    returns that response's text at once, whatever it holds.
  A blocked body is not covered: \<^verbatim>\<open>request_detail\<close> raises on it at once, and
  \<^verbatim>\<open>get_html\<close> returns it.
\<close>

theorem fetchers_attempt_bounds:
  assumes "w1 = prewarm (domain_of parsed) (referer_of (domain_of parsed)) w"
  shows
    "(pool \<noteq> [] \<and> urlparse rt url = Some parsed \<and>
      (\<forall>i < nat retries. plain_failure (net w (calls w1 + i))) \<longrightarrow>
        request_detail rt pool url retries w =
          (Inl (case last_network_error (net w) (calls w1) (nat retries) None of
                  Some exc \<Rightarrow> exc
                | None \<Rightarrow> RuntimeError (Failed_to_fetch_detail_page retries url)),
           after_attempts url (nat retries) w1)) \<and>
     (pool \<noteq> [] \<and> urlparse rt url = Some parsed \<and> k < nat retries \<and>
      (\<forall>i<k. plain_failure (net w (calls w1 + i))) \<and> good_page (net w (calls w1 + k)) \<longrightarrow>
        request_detail rt pool url retries w =
          (Inr (body_of (net w (calls w1 + k))),
           after_get (Detail_get url) (after_attempts url k w1))) \<and>
     (\<not> no_user_agent ag \<and> 0 < retries \<and>
      (\<forall>i < nat retries. html_raises (net w (calls w + i)) \<noteq> None) \<longrightarrow>
        get_html ag url retries w =
          (Inl (the (html_raises (net w (calls w + (nat retries - 1))))),
           after_get (Html_get url) (after_html_attempts url (nat retries - 1) w))) \<and>
     (retries \<le> 0 \<longrightarrow>
        get_html ag url retries w = (Inl (RuntimeError Failed_to_retrieve_html), w)) \<and>
     (\<not> no_user_agent ag \<and> k < nat retries \<and>
      (\<forall>i<k. html_raises (net w (calls w + i)) \<noteq> None) \<and>
      net w (calls w + k) = Response r \<and> raise_for_status r = None \<longrightarrow>
        get_html ag url retries w =
          (Inr (text_declared r), after_get (Html_get url) (after_html_attempts url k w)))"
proof (intro conjI impI; (elim conjE)?)
  assume a: "pool \<noteq> []" "urlparse rt url = Some parsed"
    "\<forall>i < nat retries. plain_failure (net w (calls w1 + i))"
  show "request_detail rt pool url retries w =
      (Inl (case last_network_error (net w) (calls w1) (nat retries) None of
              Some exc \<Rightarrow> exc
            | None \<Rightarrow> RuntimeError (Failed_to_fetch_detail_page retries url)),
       after_attempts url (nat retries) w1)"
    by (rule request_detail_all_fail [OF a(1) a(2) assms a(3)])
next
  assume b: "pool \<noteq> []" "urlparse rt url = Some parsed" "k < nat retries"
    "\<forall>i<k. plain_failure (net w (calls w1 + i))" "good_page (net w (calls w1 + k))"
  show "request_detail rt pool url retries w =
      (Inr (body_of (net w (calls w1 + k))), after_get (Detail_get url) (after_attempts url k w1))"
    by (rule request_detail_good [OF b(1) b(2) assms b(3) b(4) b(5)])
next
  assume "\<not> no_user_agent ag" "0 < retries"
    "\<forall>i < nat retries. html_raises (net w (calls w + i)) \<noteq> None"
  then show "get_html ag url retries w =
      (Inl (the (html_raises (net w (calls w + (nat retries - 1))))),
       after_get (Html_get url) (after_html_attempts url (nat retries - 1) w))"
    by (rule get_html_all_raise)
next
  assume "retries \<le> 0"
  then show "get_html ag url retries w = (Inl (RuntimeError Failed_to_retrieve_html), w)"
    by (rule get_html_no_attempts)
next
  assume "\<not> no_user_agent ag" "k < nat retries"
    "\<forall>i<k. html_raises (net w (calls w + i)) \<noteq> None"
    "net w (calls w + k) = Response r" "raise_for_status r = None"
  then show "get_html ag url retries w =
      (Inr (text_declared r), after_get (Html_get url) (after_html_attempts url k w))"
    by (rule get_html_good)
qed

theorem fetchers_attempt_bounds_witness:
  "request_detail ascii_tables sample_pool sample_url 3 (fresh_process failing_network) =
     (Inl (RequestException 3),
      after_attempts sample_url 3
        (prewarm (domain_of (ascii ''https'', ascii ''bj.lianjia.com''))
           (referer_of (domain_of (ascii ''https'', ascii ''bj.lianjia.com'')))
           (fresh_process failing_network))) \<and>
   request_detail ascii_tables sample_pool sample_url 3 (fresh_process flaky_then_good) =
     (Inr (ascii ''<html>ok</html>''),
      after_get (Detail_get sample_url)
        (after_attempts sample_url 1
          (prewarm (domain_of (ascii ''https'', ascii ''bj.lianjia.com''))
             (referer_of (domain_of (ascii ''https'', ascii ''bj.lianjia.com'')))
             (fresh_process flaky_then_good)))) \<and>
   get_html sample_agents sample_url 3 (fresh_process failing_network) =
     (Inl (RequestException 2),
      after_get (Html_get sample_url) (after_html_attempts sample_url 2 (fresh_process failing_network))) \<and>
   get_html sample_agents sample_url 0 (fresh_process failing_network) =
     (Inl (RuntimeError Failed_to_retrieve_html), fresh_process failing_network) \<and>
   get_html sample_agents sample_url 3 (fresh_process flaky_then_good) =
     (Inr (ascii ''<html>ok</html>''),
      after_get (Html_get sample_url) (after_html_attempts sample_url 2 (fresh_process flaky_then_good)))"
proof -
  let ?p = "(ascii ''https'', ascii ''bj.lianjia.com'')"
  let ?ok = "\<lparr>status_code = 200, text_declared = ascii ''<html>ok</html>'',
      text_redecoded = ascii ''<html>ok</html>''\<rparr>"
  let ?a = "fresh_process failing_network"
  let ?b = "fresh_process flaky_then_good"
  let ?a1 = "prewarm (domain_of ?p) (referer_of (domain_of ?p)) ?a"
  let ?b1 = "prewarm (domain_of ?p) (referer_of (domain_of ?p)) ?b"
  note A = fetchers_attempt_bounds [OF refl, where w = ?a and parsed = ?p and pool = sample_pool
      and rt = ascii_tables and url = sample_url and retries = 3 and ag = sample_agents]
  note A0 = fetchers_attempt_bounds [OF refl, where w = ?a and parsed = ?p
      and url = sample_url and retries = 0 and ag = sample_agents]
  note B1 = fetchers_attempt_bounds [OF refl, where w = ?b and parsed = ?p and pool = sample_pool
      and rt = ascii_tables and url = sample_url and retries = 3 and k = 1]
  note B2 = fetchers_attempt_bounds [OF refl, where w = ?b and parsed = ?p
      and url = sample_url and retries = 3 and ag = sample_agents and k = 2 and r = ?ok]
  have one_less: "(1 :: nat) < nat 3" and two_less: "(2 :: nat) < nat 3" and zero_less: "(0 :: int) < 3"
    by simp_all
  have a_fail: "\<forall>i < nat 3. plain_failure (net ?a (calls ?a1 + i))"
    by (simp add: fresh_process_def failing_network_def plain_failure_def)
  have a_last: "last_network_error (net ?a) (calls ?a1) (nat 3) None = Some (RequestException 3)"
    by (simp add: prewarm_fresh numeral_3_eq_3) (simp add: fresh_process_def failing_network_def)
  have a_html: "\<forall>i < nat 3. html_raises (net ?a (calls ?a + i)) \<noteq> None"
    by (simp add: fresh_process_def failing_network_def html_raises_def)
  have a_html_last: "the (html_raises (net ?a (calls ?a + (nat 3 - 1)))) = RequestException 2"
    by (simp add: fresh_process_def failing_network_def html_raises_def)
  have b_fail: "\<forall>i<1. plain_failure (net ?b (calls ?b1 + i))"
    by (simp add: prewarm_fresh) (simp add: fresh_process_def flaky_then_good_def plain_failure_def)
  have b_good: "good_page (net ?b (calls ?b1 + 1))"
    using good_body_not_blocked
    by (simp add: prewarm_fresh) (simp add: fresh_process_def flaky_then_good_def good_page_def page_def ascii_def)
  have b_body: "body_of (net ?b (calls ?b1 + 1)) = ascii ''<html>ok</html>''"
    by (simp add: prewarm_fresh) (simp add: fresh_process_def flaky_then_good_def body_of_def page_def)
  have b_html: "\<forall>i<2. html_raises (net ?b (calls ?b + i)) \<noteq> None"
    by (simp add: fresh_process_def flaky_then_good_def html_raises_def)
  have b_resp: "net ?b (calls ?b + 2) = Response ?ok"
    by (simp add: fresh_process_def flaky_then_good_def page_def)
  have ok_status: "raise_for_status ?ok = None"
    by (simp add: raise_for_status_def)
  have r1: "request_detail ascii_tables sample_pool sample_url 3 ?a =
      (Inl (RequestException 3), after_attempts sample_url 3 ?a1)"
    using A [THEN conjunct1, THEN mp, OF conjI [OF sample_pool_nonempty conjI [OF sample_url_parsed a_fail]]]
    unfolding a_last by simp
  have r2: "request_detail ascii_tables sample_pool sample_url 3 ?b =
      (Inr (ascii ''<html>ok</html>''), after_get (Detail_get sample_url) (after_attempts sample_url 1 ?b1))"
    using B1 [THEN conjunct2, THEN conjunct1, THEN mp,
        OF conjI [OF sample_pool_nonempty conjI [OF sample_url_parsed conjI [OF one_less conjI [OF b_fail b_good]]]]]
    unfolding b_body by simp
  have r3: "get_html sample_agents sample_url 3 ?a =
      (Inl (RequestException 2), after_get (Html_get sample_url) (after_html_attempts sample_url 2 ?a))"
    using A [THEN conjunct2, THEN conjunct2, THEN conjunct1, THEN mp,
        OF conjI [OF sample_agents_ok conjI [OF zero_less a_html]]]
    unfolding a_html_last by simp
  have r4: "get_html sample_agents sample_url 0 ?a = (Inl (RuntimeError Failed_to_retrieve_html), ?a)"
    using A0 [THEN conjunct2, THEN conjunct2, THEN conjunct2, THEN conjunct1] by simp
  have r5: "get_html sample_agents sample_url 3 ?b =
      (Inr (ascii ''<html>ok</html>''), after_get (Html_get sample_url) (after_html_attempts sample_url 2 ?b))"
    using B2 [THEN conjunct2, THEN conjunct2, THEN conjunct2, THEN conjunct2, THEN mp,
        OF conjI [OF sample_agents_ok conjI [OF two_less conjI [OF b_html conjI [OF b_resp ok_status]]]]]
    by simp
  from r1 r2 r3 r4 r5 show ?thesis
    by (intro conjI)
qed

text \<open>
  The claim as stated fails. With three attempts allowed and every answer a blocked page
  (a failed attempt), \<^verbatim>\<open>request_detail\<close> makes one attempt, not three; and with every
  answer an empty body with status 200 (a failed attempt), \<^verbatim>\<open>get_html\<close> returns the
  empty text of the first attempt and raises nothing.
\<close>

theorem fetchers_attempt_bounds_counterexample:
  "count_list
     (log (snd (request_detail ascii_tables sample_pool sample_url 3 (fresh_process (\<lambda>n. page blocked_body)))))
     (Detail_get sample_url) = 1 \<and>
   fst (get_html sample_agents sample_url 3 (fresh_process (\<lambda>n. page []))) = Inr []"
proof -
  let ?w = "fresh_process (\<lambda>n. page blocked_body)"
  let ?d = "domain_of (ascii ''https'', ascii ''bj.lianjia.com'')"
  let ?w1 = "\<lparr>net = (\<lambda>n. page blocked_body), calls = 1, log = [Warmup_get (referer_of ?d)], prewarmed = {?d}\<rparr>"
  have unfold: "request_detail ascii_tables sample_pool sample_url 3 ?w =
      request_loop sample_url 3 (Suc 2) None ?w1"
    unfolding request_detail_unfold [OF sample_pool_nonempty sample_url_parsed] prewarm_fresh
    by simp
  have "blocked_page (net ?w1 (calls ?w1))"
    using blocked_body_is_blocked blocked_body_nonempty by (simp add: blocked_page_def page_def)
  then have "request_loop sample_url 3 (Suc 2) None ?w1 =
      (Inl (RuntimeError Blocked_by_anti_bot_verification), after_get (Detail_get sample_url) ?w1)"
    by (rule request_loop_blocked)
  with unfold have one: "count_list (log (snd (request_detail ascii_tables sample_pool sample_url 3 ?w)))
      (Detail_get sample_url) = 1"
    by (simp add: after_get_def)
  let ?e = "fresh_process (\<lambda>n. page [])"
  have "net ?e (calls ?e) = Response \<lparr>status_code = 200, text_declared = [], text_redecoded = []\<rparr>"
    by (simp add: fresh_process_def page_def)
  moreover have "raise_for_status \<lparr>status_code = 200, text_declared = [], text_redecoded = []\<rparr> = None"
    by (simp add: raise_for_status_def)
  ultimately have "get_html_loop sample_agents sample_url 3 0 (Suc 2) ?e =
      (Inr (text_declared \<lparr>status_code = 200, text_declared = [], text_redecoded = []\<rparr>),
       after_get (Html_get sample_url) ?e)"
    by (rule get_html_loop_good [OF sample_agents_ok])
  then have two: "fst (get_html sample_agents sample_url 3 ?e) = Inr []"
    by (simp add: get_html_def numeral_3_eq_3)
  from one two show ?thesis ..
qed

section \<open>Properties of the warm-up\<close>

lemma request_loop_keeps_warmups:
  "prewarmed (snd (request_loop url retries n last_exc w)) = prewarmed w \<and>
   count_list (log (snd (request_loop url retries n last_exc w))) (Warmup_get r) =
     count_list (log w) (Warmup_get r)"
proof (induction n arbitrary: last_exc w)
  case 0
  show ?case by (simp split: option.splits)
next
  case (Suc n)
  let ?w1 = "sleep Sleep_retry (after_get (Detail_get url) w)"
  have w1: "prewarmed ?w1 = prewarmed w"
    "count_list (log ?w1) (Warmup_get r) = count_list (log w) (Warmup_get r)"
    by (simp_all add: sleep_def after_get_def)
  have w0: "prewarmed (after_get (Detail_get url) w) = prewarmed w"
    "count_list (log (after_get (Detail_get url) w)) (Warmup_get r) = count_list (log w) (Warmup_get r)"
    by (simp_all add: after_get_def)
  show ?case
  proof (cases "net w (calls w)")
    case (Network_error exc)
    then show ?thesis
      using Suc.IH [of "Some (RequestException exc)" ?w1] w1 by (simp add: session_get_eq)
  next
    case (Response resp)
    then show ?thesis
      using Suc.IH [of last_exc ?w1] w1 w0 by (simp add: session_get_eq)
  qed
qed

lemma referer_of_inj: "referer_of d = referer_of d' \<Longrightarrow> d = d'"
  by (simp add: referer_of_def)

lemma prewarm_known: "d \<in> prewarmed w \<Longrightarrow> prewarm d r w = w"
  by (simp add: prewarm_def)

lemma prewarm_new:
  "d \<notin> prewarmed w \<Longrightarrow>
     prewarm d r w = (after_get (Warmup_get r) w)\<lparr>prewarmed := insert d (prewarmed w)\<rparr>"
  by (simp add: prewarm_def session_get_eq after_get_def)

text \<open>The invariant: every warm-up in the log is for a host in the set, and none occurs twice.\<close>

lemma prewarm_invariant:
  assumes once: "\<forall>r. count_list (log w) (Warmup_get r) \<le> 1"
    and known: "\<forall>r. Warmup_get r \<in> set (log w) \<longrightarrow> (\<exists>d \<in> prewarmed w. r = referer_of d)"
  shows "(\<forall>r. count_list (log (prewarm d (referer_of d) w)) (Warmup_get r) \<le> 1) \<and>
         (\<forall>r. Warmup_get r \<in> set (log (prewarm d (referer_of d) w)) \<longrightarrow>
              (\<exists>d' \<in> prewarmed (prewarm d (referer_of d) w). r = referer_of d'))"
proof (cases "d \<in> prewarmed w")
  case True
  then show ?thesis
    using once known by (simp add: prewarm_known)
next
  case False
  have absent: "Warmup_get (referer_of d) \<notin> set (log w)"
  proof
    assume "Warmup_get (referer_of d) \<in> set (log w)"
    with known obtain d' where "d' \<in> prewarmed w" and "referer_of d = referer_of d'"
      by blast
    with False show False
      by (auto dest: referer_of_inj)
  qed
  then have zero: "count_list (log w) (Warmup_get (referer_of d)) = 0"
    by (simp add: count_list_0_iff)
  have log': "log (prewarm d (referer_of d) w) = log w @ [Warmup_get (referer_of d)]"
    and pre': "prewarmed (prewarm d (referer_of d) w) = insert d (prewarmed w)"
    using False by (simp_all add: prewarm_new after_get_def)
  have "\<forall>r. count_list (log w @ [Warmup_get (referer_of d)]) (Warmup_get r) \<le> 1"
  proof
    fix r
    show "count_list (log w @ [Warmup_get (referer_of d)]) (Warmup_get r) \<le> 1"
      using once [rule_format, of r] zero by (cases "r = referer_of d") simp_all
  qed
  moreover have "\<forall>r. Warmup_get r \<in> set (log w @ [Warmup_get (referer_of d)]) \<longrightarrow>
      (\<exists>d' \<in> insert d (prewarmed w). r = referer_of d')"
    using known by auto
  ultimately show ?thesis
    unfolding log' pre' by blast
qed

lemma request_detail_invariant:
  assumes once: "\<forall>r. count_list (log w) (Warmup_get r) \<le> 1"
    and known: "\<forall>r. Warmup_get r \<in> set (log w) \<longrightarrow> (\<exists>d \<in> prewarmed w. r = referer_of d)"
  shows "(\<forall>r. count_list (log (snd (request_detail rt pool url retries w))) (Warmup_get r) \<le> 1) \<and>
         (\<forall>r. Warmup_get r \<in> set (log (snd (request_detail rt pool url retries w))) \<longrightarrow>
              (\<exists>d \<in> prewarmed (snd (request_detail rt pool url retries w)). r = referer_of d))"
proof (cases "urlparse rt url")
  case None
  then show ?thesis
    using once known by (simp add: request_detail_def)
next
  case (Some parsed)
  show ?thesis
  proof (cases "pool = []")
    case True
    then show ?thesis
      using Some once known by (simp add: request_detail_def Let_def)
  next
    case False
    let ?w1 = "prewarm (domain_of parsed) (referer_of (domain_of parsed)) w"
    let ?w2 = "snd (request_loop url retries (nat retries) None ?w1)"
    have w2: "snd (request_detail rt pool url retries w) = ?w2"
      using request_detail_unfold [OF False Some] by simp
    have keep: "prewarmed ?w2 = prewarmed ?w1"
      "\<And>r. count_list (log ?w2) (Warmup_get r) = count_list (log ?w1) (Warmup_get r)"
      using request_loop_keeps_warmups by blast+
    have mem: "\<And>r. Warmup_get r \<in> set (log ?w2) \<longleftrightarrow> Warmup_get r \<in> set (log ?w1)"
      using keep(2) by (metis count_list_0_iff)
    from prewarm_invariant [OF once known, of "domain_of parsed"] show ?thesis
      unfolding w2 keep mem .
  qed
qed

lemma run_requests_invariant:
  "\<forall>r. count_list (log w) (Warmup_get r) \<le> 1 \<Longrightarrow>
   \<forall>r. Warmup_get r \<in> set (log w) \<longrightarrow> (\<exists>d \<in> prewarmed w. r = referer_of d) \<Longrightarrow>
     \<forall>r. count_list (log (run_requests rt pool reqs w)) (Warmup_get r) \<le> 1"
proof (induction reqs arbitrary: w)
  case Nil
  then show ?case by simp
next
  case (Cons req reqs)
  obtain url retries where req: "req = (url, retries)"
    by (cases req)
  from request_detail_invariant [OF Cons.prems, of rt pool url retries]
  have "\<forall>r. count_list (log (run_requests rt pool reqs (snd (request_detail rt pool url retries w))))
      (Warmup_get r) \<le> 1"
    by (intro Cons.IH) blast+
  then show ?case
    by (simp add: req)
qed

text \<open>
  Claim C8, as amended. In a process that starts with an empty log and an empty set
  \<^verbatim>\<open>_prewarmed\<close>, after any sequence of calls of \<^verbatim>\<open>request_detail\<close>, whatever the network
  answered, the log holds at most one warm-up request per referer, that is per string
  \<^verbatim>\<open>scheme://netloc\<close> as \<^verbatim>\<open>urlparse\<close> returns it, compared character by character. And
  a network exception raised by the warm-up request does not reach the caller: the call
  goes on with the retry loop from the state in which the string is recorded as warmed,
  and returns the page when the next answer is a good one.
\<close>

theorem warmup_once_and_swallowed:
  assumes "log w = []" and "prewarmed w = {}"
  shows
    "count_list (log (run_requests rt pool reqs w)) (Warmup_get r) \<le> 1 \<and>
     (pool \<noteq> [] \<and> urlparse rt url = Some parsed \<and> domain_of parsed \<notin> prewarmed w' \<and>
      net w' (calls w') = Network_error exc \<longrightarrow>
        request_detail rt pool url retries w' =
          request_loop url retries (nat retries) None
            ((after_get (Warmup_get (referer_of (domain_of parsed))) w')
               \<lparr>prewarmed := insert (domain_of parsed) (prewarmed w')\<rparr>)) \<and>
     (pool \<noteq> [] \<and> urlparse rt url = Some parsed \<and> domain_of parsed \<notin> prewarmed w' \<and>
      net w' (calls w') = Network_error exc \<and> 0 < retries \<and> good_page (net w' (Suc (calls w'))) \<longrightarrow>
        fst (request_detail rt pool url retries w') = Inr (body_of (net w' (Suc (calls w')))))"
proof (intro conjI impI; (elim conjE)?)
  have "\<forall>r. count_list (log w) (Warmup_get r) \<le> 1"
    and "\<forall>r. Warmup_get r \<in> set (log w) \<longrightarrow> (\<exists>d \<in> prewarmed w. r = referer_of d)"
    using assms by simp_all
  then have "\<forall>r. count_list (log (run_requests rt pool reqs w)) (Warmup_get r) \<le> 1"
    by (rule run_requests_invariant)
  then show "count_list (log (run_requests rt pool reqs w)) (Warmup_get r) \<le> 1" ..
next
  assume a: "pool \<noteq> []" "urlparse rt url = Some parsed" "domain_of parsed \<notin> prewarmed w'"
  show "request_detail rt pool url retries w' =
      request_loop url retries (nat retries) None
        ((after_get (Warmup_get (referer_of (domain_of parsed))) w')
           \<lparr>prewarmed := insert (domain_of parsed) (prewarmed w')\<rparr>)"
    unfolding request_detail_unfold [OF a(1,2)] prewarm_new [OF a(3)] ..
next
  assume a: "pool \<noteq> []" "urlparse rt url = Some parsed" "domain_of parsed \<notin> prewarmed w'"
    "0 < retries" "good_page (net w' (Suc (calls w')))"
  let ?w1 = "prewarm (domain_of parsed) (referer_of (domain_of parsed)) w'"
  have c: "calls ?w1 = Suc (calls w')"
    by (simp add: prewarm_new [OF a(3)] after_get_def)
  have "request_detail rt pool url retries w' =
      (Inr (body_of (net w' (calls ?w1 + 0))), after_get (Detail_get url) (after_attempts url 0 ?w1))"
    using a(4,5) by (intro request_detail_good [OF a(1,2) refl]) (simp_all add: c)
  then show "fst (request_detail rt pool url retries w') = Inr (body_of (net w' (Suc (calls w'))))"
    by (simp add: c)
qed

theorem warmup_once_and_swallowed_witness:
  "log (fresh_process failing_network) = [] \<and> prewarmed (fresh_process failing_network) = {} \<and>
   count_list (log (run_requests ascii_tables sample_pool [(sample_url, 3), (sample_url, 2)]
       (fresh_process failing_network)))
     (Warmup_get (referer_of (domain_of (ascii ''https'', ascii ''bj.lianjia.com'')))) \<le> 1 \<and>
   sample_pool \<noteq> [] \<and>
   urlparse ascii_tables sample_url = Some (ascii ''https'', ascii ''bj.lianjia.com'') \<and>
   domain_of (ascii ''https'', ascii ''bj.lianjia.com'') \<notin> prewarmed (fresh_process warmup_fails) \<and>
   net (fresh_process warmup_fails) (calls (fresh_process warmup_fails)) = Network_error 7 \<and>
   good_page (net (fresh_process warmup_fails) (Suc (calls (fresh_process warmup_fails)))) \<and>
   fst (request_detail ascii_tables sample_pool sample_url 3 (fresh_process warmup_fails)) =
     Inr (ascii ''<html>ok</html>'')"
proof -
  let ?p = "(ascii ''https'', ascii ''bj.lianjia.com'')"
  let ?a = "fresh_process failing_network"
  let ?b = "fresh_process warmup_fails"
  have h1: "log ?a = []" and h2: "prewarmed ?a = {}"
    by (simp_all add: fresh_process_def)
  have h3: "domain_of ?p \<notin> prewarmed ?b"
    by (simp add: fresh_process_def)
  have h4: "net ?b (calls ?b) = Network_error 7"
    by (simp add: fresh_process_def warmup_fails_def)
  have h5: "good_page (net ?b (Suc (calls ?b)))"
    using good_body_not_blocked
    by (simp add: fresh_process_def warmup_fails_def good_page_def page_def ascii_def)
  have h6: "body_of (net ?b (Suc (calls ?b))) = ascii ''<html>ok</html>''"
    by (simp add: fresh_process_def warmup_fails_def body_of_def page_def)
  have h7: "(0 :: int) < 3"
    by simp
  note T = warmup_once_and_swallowed [OF h1 h2, where rt = ascii_tables and pool = sample_pool
      and reqs = "[(sample_url, 3), (sample_url, 2)]" and r = "referer_of (domain_of ?p)"
      and url = sample_url and parsed = ?p and w' = ?b and exc = 7 and retries = 3]
  have r1: "count_list (log (run_requests ascii_tables sample_pool [(sample_url, 3), (sample_url, 2)] ?a))
      (Warmup_get (referer_of (domain_of ?p))) \<le> 1"
    using T by (rule conjunct1)
  have r2: "fst (request_detail ascii_tables sample_pool sample_url 3 ?b) = Inr (ascii ''<html>ok</html>'')"
    using T [THEN conjunct2, THEN conjunct2, THEN mp,
        OF conjI [OF sample_pool_nonempty conjI [OF sample_url_parsed conjI [OF h3 conjI [OF h4 conjI [OF h7 h5]]]]]]
    unfolding h6 .
  from h1 h2 r1 sample_pool_nonempty sample_url_parsed h3 h4 h5 r2 show ?thesis
    by (intro conjI)
qed

lemma capitals_url_parsed:
  "urlparse ascii_tables capitals_url = Some (ascii ''https'', ascii ''BJ.lianjia.com'')"
  by (simp add: ascii_tables_def sample_urlparse_def split_def capitals_url_def ascii_def)

lemma port_url_parsed:
  "urlparse ascii_tables port_url = Some (ascii ''https'', ascii ''bj.lianjia.com:443'')"
  by (simp add: ascii_tables_def sample_urlparse_def split_def port_url_def ascii_def)

lemma always_ok_good: "good_page (always_ok n)"
  using good_body_not_blocked by (simp add: always_ok_def good_page_def page_def ascii_def)

lemma request_detail_first_good:
  assumes "pool \<noteq> []" and "urlparse rt url = Some parsed" and "0 < retries"
    and "\<forall>n. good_page (net w n)"
  shows "snd (request_detail rt pool url retries w) =
           after_get (Detail_get url) (prewarm (domain_of parsed) (referer_of (domain_of parsed)) w)"
proof -
  let ?w1 = "prewarm (domain_of parsed) (referer_of (domain_of parsed)) w"
  have "request_detail rt pool url retries w =
      (Inr (body_of (net w (calls ?w1 + 0))), after_get (Detail_get url) (after_attempts url 0 ?w1))"
    using assms(3,4) by (intro request_detail_good [OF assms(1,2) refl]) simp_all
  then show ?thesis
    by (simp add: after_attempts_0)
qed

text \<open>
  The claim as stated fails: the warm-up is not issued once per scheme and host. Three
  detail pages of one host over https, the host written in small letters, in capitals,
  and with the port 443, are fetched in one process; the log holds three warm-up requests
  to that host.
\<close>

theorem warmup_per_host_counterexample:
  "log (run_requests ascii_tables sample_pool [(sample_url, 3), (capitals_url, 3), (port_url, 3)]
      (fresh_process always_ok)) =
   [Warmup_get (ascii ''https://bj.lianjia.com/ershoufang/''), Detail_get sample_url,
    Warmup_get (ascii ''https://BJ.lianjia.com/ershoufang/''), Detail_get capitals_url,
    Warmup_get (ascii ''https://bj.lianjia.com:443/ershoufang/''), Detail_get port_url]"
proof -
  let ?w0 = "fresh_process always_ok"
  let ?d1 = "domain_of (ascii ''https'', ascii ''bj.lianjia.com'')"
  let ?d2 = "domain_of (ascii ''https'', ascii ''BJ.lianjia.com'')"
  let ?d3 = "domain_of (ascii ''https'', ascii ''bj.lianjia.com:443'')"
  let ?w1 = "after_get (Detail_get sample_url) (prewarm ?d1 (referer_of ?d1) ?w0)"
  let ?w2 = "after_get (Detail_get capitals_url) (prewarm ?d2 (referer_of ?d2) ?w1)"
  let ?w3 = "after_get (Detail_get port_url) (prewarm ?d3 (referer_of ?d3) ?w2)"
  have three: "(0 :: int) < 3"
    by simp
  have n0: "net ?w0 = always_ok"
    by (simp add: fresh_process_def)
  have n1: "net ?w1 = always_ok"
    by (simp add: after_get_def n0)
  have n2: "net ?w2 = always_ok"
    by (simp add: after_get_def n0)
  have s1: "snd (request_detail ascii_tables sample_pool sample_url 3 ?w0) = ?w1"
    by (rule request_detail_first_good [OF sample_pool_nonempty sample_url_parsed three])
      (simp add: n0 always_ok_good)
  have s2: "snd (request_detail ascii_tables sample_pool capitals_url 3 ?w1) = ?w2"
    by (rule request_detail_first_good [OF sample_pool_nonempty capitals_url_parsed three])
      (simp add: n0 always_ok_good)
  have s3: "snd (request_detail ascii_tables sample_pool port_url 3 ?w2) = ?w3"
    by (rule request_detail_first_good [OF sample_pool_nonempty port_url_parsed three])
      (simp add: n0 always_ok_good)
  have run: "run_requests ascii_tables sample_pool [(sample_url, 3), (capitals_url, 3), (port_url, 3)] ?w0 = ?w3"
    by (simp add: s1 s2 s3)
  have d: "?d2 \<noteq> ?d1" "?d3 \<noteq> ?d1" "?d3 \<noteq> ?d2"
    by (simp_all add: domain_of_def ascii_def)
  have l1: "log ?w1 = [Warmup_get (referer_of ?d1), Detail_get sample_url]"
    and p1: "prewarmed ?w1 = {?d1}"
    by (simp_all add: prewarm_fresh after_get_def)
  have l2: "log ?w2 = log ?w1 @ [Warmup_get (referer_of ?d2), Detail_get capitals_url]"
    and p2: "prewarmed ?w2 = {?d2, ?d1}"
    using d(1) p1 by (simp_all add: prewarm_new after_get_def)
  have l3: "log ?w3 = log ?w2 @ [Warmup_get (referer_of ?d3), Detail_get port_url]"
    using d(2,3) p2 by (simp add: prewarm_new after_get_def)
  have r: "referer_of ?d1 = ascii ''https://bj.lianjia.com/ershoufang/''"
    "referer_of ?d2 = ascii ''https://BJ.lianjia.com/ershoufang/''"
    "referer_of ?d3 = ascii ''https://bj.lianjia.com:443/ershoufang/''"
    by (simp_all add: referer_of_def domain_of_def ascii_def)
  have "log ?w3 =
      [Warmup_get (referer_of ?d1), Detail_get sample_url,
       Warmup_get (referer_of ?d2), Detail_get capitals_url,
       Warmup_get (referer_of ?d3), Detail_get port_url]"
    unfolding l3 l2 l1 by simp
  then show ?thesis
    unfolding run r .
qed

section \<open>Properties of parse\_detail\<close>

lemma str_in_prefix: "prefix v d \<Longrightarrow> str_in v d"
  by (cases d) auto

lemma str_in_mid: "str_in v (xs @ v @ ys)"
  by (induction xs) (auto simp: str_in_prefix)

lemma login_page_marked: "str_in login_marker_2 login_page"
proof -
  have "\<exists>xs ys. login_page = xs @ login_marker_2 @ ys"
    unfolding login_page_def by (metis append.assoc)
  then obtain xs ys where parts: "login_page = xs @ login_marker_2 @ ys"
    by blast
  show ?thesis
    unfolding parts by (rule str_in_mid)
qed

lemma comment_page_marked: "str_in login_marker_1 comment_page"
  unfolding comment_page_def by (rule str_in_mid)

lemma login_page_parsed: "sample_HTML login_page = Parse_tree tagged_tree"
  by (simp add: sample_HTML_def login_page_def comment_page_def ascii_def)

lemma comment_page_parsed: "sample_HTML comment_page = Parse_none"
  by (simp add: sample_HTML_def)

text \<open>
  Claim C5, as amended. For every body that contains either login phrase: when
  \<^verbatim>\<open>etree.HTML\<close> turns it into a tree, \<^verbatim>\<open>parse_detail\<close> returns the record whose only
  entry is the status \<^verbatim>\<open>login_required\<close>, whatever else the tree holds; when
  \<^verbatim>\<open>etree.HTML\<close> returns no tree, the result is the empty record, because the check
  \<^verbatim>\<open>if tree is None: return {}\<close> comes first.
\<close>

theorem parse_detail_login_required:
  "str_in login_marker_1 html \<or> str_in login_marker_2 html \<Longrightarrow>
     (HTML html = Parse_tree tree \<longrightarrow>
        parse_detail rt HTML html = Inr [(status_key, Str (ascii ''login_required''))]) \<and>
     (HTML html = Parse_none \<longrightarrow> parse_detail rt HTML html = Inr [])"
  by (simp add: parse_detail_def)

theorem parse_detail_login_required_witness:
  "str_in login_marker_2 login_page \<and>
   sample_HTML login_page = Parse_tree tagged_tree \<and>
   parse_detail ascii_tables sample_HTML login_page =
     Inr [(status_key, Str (ascii ''login_required''))] \<and>
   str_in login_marker_1 comment_page \<and>
   sample_HTML comment_page = Parse_none \<and>
   parse_detail ascii_tables sample_HTML comment_page = Inr []"
proof -
  have a: "str_in login_marker_1 login_page \<or> str_in login_marker_2 login_page"
    using login_page_marked by (rule disjI2)
  have b: "str_in login_marker_1 comment_page \<or> str_in login_marker_2 comment_page"
    using comment_page_marked by (rule disjI1)
  from login_page_marked login_page_parsed
    parse_detail_login_required [OF a, of sample_HTML tagged_tree ascii_tables,
      THEN conjunct1, THEN mp, OF login_page_parsed]
    comment_page_marked comment_page_parsed
    parse_detail_login_required [OF b, of sample_HTML tagged_tree ascii_tables,
      THEN conjunct2, THEN mp, OF comment_page_parsed]
  show ?thesis
    by (intro conjI)
qed

text \<open>
  The claim as stated fails: the document that is one comment holds the first login
  phrase, \<^verbatim>\<open>etree.HTML\<close> gives no tree for it, and the result is the empty record, with
  no status.
\<close>

theorem parse_detail_login_counterexample:
  "str_in login_marker_1 comment_page \<and>
   sample_HTML comment_page = Parse_none \<and>
   parse_detail ascii_tables sample_HTML comment_page = Inr [] \<and>
   parse_detail ascii_tables sample_HTML comment_page \<noteq>
     Inr [(status_key, Str (ascii ''login_required''))]"
  using comment_page_marked by (simp add: parse_detail_def sample_HTML_def)

section \<open>Properties of merge\_detail\<close>

lemma merged_value_is_str: "\<exists>s. merged_value rt v = Str s"
  by (cases v) (simp_all add: merged_value_def)

lemma merge_columns_lookup:
  "map_of (merge_columns rt cols dd row) c =
     (if c \<in> set cols then Some (merged_value rt (get_or dd c (Str []))) else map_of row c)"
  by (induction cols arbitrary: row) (auto simp: update_conv')

lemma merge_detail_lookup:
  "c \<in> set DETAIL_COLUMNS \<Longrightarrow>
     map_of (merge_detail rt row dd) c = Some (merged_value rt (get_or dd c (Str [])))"
  by (simp add: merge_detail_def merge_columns_lookup)

lemma DETAIL_COLUMNS_length: "length DETAIL_COLUMNS = 16"
  by (simp add: DETAIL_COLUMNS_def)

lemma strip_parts:
  "\<exists>pre suf. v = pre @ strip rt v @ suf \<and> (\<forall>ch \<in> set (pre @ suf). isspace rt ch)"
proof -
  let ?t = "dropWhile (isspace rt) v"
  let ?suf = "rev (takeWhile (isspace rt) (rev ?t))"
  have "?t = rev (dropWhile (isspace rt) (rev ?t)) @ ?suf"
    by (metis rev_append rev_rev_ident takeWhile_dropWhile_id)
  then have t: "?t = strip rt v @ ?suf"
    unfolding strip_def .
  have "v = takeWhile (isspace rt) v @ ?t"
    by simp
  with t have "v = takeWhile (isspace rt) v @ strip rt v @ ?suf"
    by simp
  moreover have "\<forall>ch \<in> set (takeWhile (isspace rt) v @ ?suf). isspace rt ch"
    by (auto dest: set_takeWhileD)
  ultimately show ?thesis
    by blast
qed

lemma strip_ends:
  "strip rt v \<noteq> [] \<Longrightarrow> \<not> isspace rt (hd (strip rt v)) \<and> \<not> isspace rt (last (strip rt v))"
proof -
  let ?t = "dropWhile (isspace rt) v"
  let ?u = "dropWhile (isspace rt) (rev ?t)"
  assume "strip rt v \<noteq> []"
  then have u: "?u \<noteq> []"
    by (simp add: strip_def)
  then have t: "?t \<noteq> []"
    by (auto dest: set_dropWhileD)
  have "last (strip rt v) = hd ?u"
    using u by (simp add: strip_def last_rev)
  moreover have "\<not> isspace rt (hd ?u)"
    using u by (rule hd_dropWhile)
  moreover have "hd (strip rt v) = last ?u"
    using u by (simp add: strip_def hd_rev)
  moreover have "last ?u = last (rev ?t)"
    using u by (metis append_Nil2 last_appendR takeWhile_dropWhile_id)
  moreover have "last (rev ?t) = hd ?t"
    using t by (simp add: last_rev)
  moreover have "\<not> isspace rt (hd ?t)"
    using t by (rule hd_dropWhile)
  ultimately show ?thesis
    by simp
qed

text \<open>
  Claim C10. For every row and every detail map, after \<^verbatim>\<open>merge_detail\<close> each of the
  sixteen columns of \<^verbatim>\<open>DETAIL_COLUMNS\<close> holds a string. It is the empty string when the
  map has no entry for the column. When the entry is a string \<open>v\<close>, it is what is left of
  \<open>v\<close> after the whitespace at both ends is cut off (the middle of \<open>v\<close> between two runs
  of whitespace, itself not beginning or ending with whitespace) and every character
  that GBK cannot encode is then dropped, so that it holds encodable characters only;
  when the entry is a list of strings, the same is done to its items joined by a bar.
\<close>

theorem merge_detail_fills_detail_columns:
  "c \<in> set DETAIL_COLUMNS \<Longrightarrow>
     (\<exists>s. map_of (merge_detail rt row dd) c = Some (Str s)) \<and>
     (map_of dd c = None \<longrightarrow> map_of (merge_detail rt row dd) c = Some (Str [])) \<and>
     (\<forall>v. map_of dd c = Some (Str v) \<longrightarrow>
        (\<exists>s. map_of (merge_detail rt row dd) c = Some (Str s) \<and>
             s = filter (gbk_encodable rt) (strip rt v) \<and> (\<forall>ch \<in> set s. gbk_encodable rt ch)) \<and>
        (\<exists>pre suf. v = pre @ strip rt v @ suf \<and> (\<forall>ch \<in> set (pre @ suf). isspace rt ch)) \<and>
        (strip rt v \<noteq> [] \<longrightarrow>
           \<not> isspace rt (hd (strip rt v)) \<and> \<not> isspace rt (last (strip rt v)))) \<and>
     (\<forall>vs. map_of dd c = Some (StrList vs) \<longrightarrow>
        map_of (merge_detail rt row dd) c =
          Some (Str (filter (gbk_encodable rt) (strip rt (join (ascii '' | '') vs))))) \<and>
     length DETAIL_COLUMNS = 16"
proof -
  assume c: "c \<in> set DETAIL_COLUMNS"
  note look = merge_detail_lookup [OF c, of rt row dd]
  have "\<exists>s. map_of (merge_detail rt row dd) c = Some (Str s)"
    unfolding look using merged_value_is_str [of rt "get_or dd c (Str [])"] by simp
  moreover have "map_of dd c = None \<longrightarrow> map_of (merge_detail rt row dd) c = Some (Str [])"
    unfolding look by (simp add: get_or_def merged_value_def filtrate_def strip_def)
  moreover have "\<forall>v. map_of dd c = Some (Str v) \<longrightarrow>
      (\<exists>s. map_of (merge_detail rt row dd) c = Some (Str s) \<and>
           s = filter (gbk_encodable rt) (strip rt v) \<and> (\<forall>ch \<in> set s. gbk_encodable rt ch)) \<and>
      (\<exists>pre suf. v = pre @ strip rt v @ suf \<and> (\<forall>ch \<in> set (pre @ suf). isspace rt ch)) \<and>
      (strip rt v \<noteq> [] \<longrightarrow>
         \<not> isspace rt (hd (strip rt v)) \<and> \<not> isspace rt (last (strip rt v)))"
    unfolding look using strip_parts strip_ends
    by (simp add: get_or_def merged_value_def filtrate_def)
  moreover have "\<forall>vs. map_of dd c = Some (StrList vs) \<longrightarrow>
      map_of (merge_detail rt row dd) c =
        Some (Str (filter (gbk_encodable rt) (strip rt (join (ascii '' | '') vs))))"
    unfolding look by (simp add: get_or_def merged_value_def filtrate_def)
  ultimately show ?thesis
    using DETAIL_COLUMNS_length by blast
qed

lemma tags_key_known: "tags_key \<in> set DETAIL_COLUMNS"
  by (simp add: tags_key_def DETAIL_COLUMNS_def)

lemma layout_key_known: "layout_key \<in> set DETAIL_COLUMNS"
  by (simp add: layout_key_def DETAIL_COLUMNS_def)

theorem merge_detail_fills_detail_columns_witness:
  "tags_key \<in> set DETAIL_COLUMNS \<and> layout_key \<in> set DETAIL_COLUMNS \<and>
   map_of sample_detail tags_key = Some (Str (ascii ''  near '' @ [0x1F687] @ ascii ''metro '')) \<and>
   strip ascii_tables (ascii ''  near '' @ [0x1F687] @ ascii ''metro '') =
     ascii ''near '' @ [0x1F687] @ ascii ''metro'' \<and>
   map_of (merge_detail ascii_tables [] sample_detail) tags_key = Some (Str (ascii ''near metro'')) \<and>
   map_of sample_detail layout_key = None \<and>
   map_of (merge_detail ascii_tables [] sample_detail) layout_key = Some (Str [])"
proof -
  let ?v = "ascii ''  near '' @ [0x1F687] @ ascii ''metro ''"
  have present: "map_of sample_detail tags_key = Some (Str ?v)"
    by (simp add: sample_detail_def)
  have absent: "map_of sample_detail layout_key = None"
    by (simp add: sample_detail_def layout_key_def tags_key_def)
  have stripped: "strip ascii_tables ?v = ascii ''near '' @ [0x1F687] @ ascii ''metro''"
    by (simp add: strip_def ascii_tables_def ascii_def)
  have clean: "filter (gbk_encodable ascii_tables) (strip ascii_tables ?v) = ascii ''near metro''"
    unfolding stripped by (simp add: ascii_tables_def ascii_def)
  have "map_of (merge_detail ascii_tables [] sample_detail) tags_key =
      Some (Str (filter (gbk_encodable ascii_tables) (strip ascii_tables ?v)))"
    using merge_detail_fills_detail_columns [OF tags_key_known, of ascii_tables "[]" sample_detail] present
    by blast
  then have r1: "map_of (merge_detail ascii_tables [] sample_detail) tags_key = Some (Str (ascii ''near metro''))"
    unfolding clean .
  have r2: "map_of (merge_detail ascii_tables [] sample_detail) layout_key = Some (Str [])"
    using merge_detail_fills_detail_columns [OF layout_key_known, of ascii_tables "[]" sample_detail] absent
    by blast
  from tags_key_known layout_key_known present stripped r1 absent r2 show ?thesis
    by (intro conjI)
qed

section \<open>Properties of the loop of main\<close>

lemma csv_columns_empty_kept:
  "map_of row c = Some (Str []) \<Longrightarrow> map_of (csv_columns rt cols row) c = Some (Str [])"
proof (induction cols arbitrary: row)
  case Nil
  then show ?case by simp
next
  case (Cons col cols)
  let ?row = "AList.update col (case get_or row col (Str []) of Str s \<Rightarrow> Str (filtrate rt s) | v \<Rightarrow> v) row"
  have "map_of ?row c = Some (Str [])"
    using Cons.prems by (cases "col = c") (simp_all add: update_conv' get_or_def filtrate_def)
  then show ?case
    by (simp add: Cons.IH)
qed

lemma csv_columns_absent:
  "map_of row c = None \<Longrightarrow>
     map_of (csv_columns rt cols row) c = (if c \<in> set cols then Some (Str []) else None)"
proof (induction cols arbitrary: row)
  case Nil
  then show ?case by simp
next
  case (Cons col cols)
  let ?row = "AList.update col (case get_or row col (Str []) of Str s \<Rightarrow> Str (filtrate rt s) | v \<Rightarrow> v) row"
  show ?case
  proof (cases "col = c")
    case True
    then have "map_of ?row c = Some (Str [])"
      using Cons.prems by (simp add: update_conv' get_or_def filtrate_def)
    then have "map_of (csv_columns rt cols ?row) c = Some (Str [])"
      by (rule csv_columns_empty_kept)
    with True show ?thesis
      by simp
  next
    case False
    then have "map_of ?row c = None"
      using Cons.prems by (simp add: update_conv')
    then show ?thesis
      using Cons.IH [of ?row] False by simp
  qed
qed

lemma status_key_header: "status_key \<in> set headers"
  by (simp add: headers_def)

lemma base_row_keys: "map fst (build_base_row info) = BASE_COLUMNS"
  by (simp add: build_base_row_def BASE_COLUMNS_def)

lemma base_row_values: "v \<in> snd ` set (build_base_row info) \<Longrightarrow> \<exists>s. v = Str s"
  by (auto simp: build_base_row_def dest!: set_zip_rightD)

lemma status_not_base: "status_key \<notin> set BASE_COLUMNS"
  by (simp add: status_key_def BASE_COLUMNS_def)

lemma base_row_no_status: "map_of (build_base_row info) status_key = None"
proof -
  have "status_key \<notin> fst ` set (build_base_row info)"
    using status_not_base base_row_keys [of info] by (metis set_map)
  then show ?thesis
    by (simp add: map_of_eq_None_iff)
qed

lemma base_row_link: "row_link (build_base_row info) = or_empty (link info)"
  by (simp add: row_link_def build_base_row_def BASE_COLUMNS_def link_key_def)

lemma base_row_lookup:
  "map_of (build_base_row info) [0x6807, 0x9898] = Some (Str (or_empty (title info)))"
  "map_of (build_base_row info) [0x5730, 0x5740] = Some (Str (location info))"
  "map_of (build_base_row info) [0x6237, 0x578B] =
     Some (Str (or_empty (map_of (details info) ''configuration'')))"
  "map_of (build_base_row info) [0x9762, 0x79EF] = Some (Str (or_empty (map_of (details info) ''area'')))"
  "map_of (build_base_row info) [0x671D, 0x5411] = Some (Str (or_empty (map_of (details info) ''towards'')))"
  "map_of (build_base_row info) [0x88C5, 0x4FEE, 0x60C5, 0x51B5] =
     Some (Str (or_empty (map_of (details info) ''decorate'')))"
  "map_of (build_base_row info) [0x5C42, 0x6570] = Some (Str (or_empty (map_of (details info) ''storey'')))"
  "map_of (build_base_row info) [0x5EFA, 0x9020, 0x65F6, 0x95F4] =
     Some (Str (or_empty (map_of (details info) ''period'')))"
  "map_of (build_base_row info) [0x697C, 0x578B] =
     Some (Str (or_empty (map_of (details info) ''categorie'')))"
  "map_of (build_base_row info) [0x603B, 0x4EF7] = Some (Str (or_empty (total_price (price info))))"
  "map_of (build_base_row info) [0x6BCF, 0x5E73, 0x7C73, 0x5355, 0x4EF7] =
     Some (Str (or_empty (unit_price (price info))))"
  "map_of (build_base_row info) [0x5173, 0x6CE8, 0x4EBA, 0x6570] = Some (Str (or_empty (follow_count info)))"
  "map_of (build_base_row info) [0x5E26, 0x770B, 0x6B21, 0x6570] = Some (Str (or_empty (visit_count info)))"
  "map_of (build_base_row info) [0x53D1, 0x5E03, 0x65F6, 0x95F4] = Some (Str (or_empty (publish_time info)))"
  "map_of (build_base_row info) [0x6807, 0x7B7E] = Some (Str (join (ascii '' | '') (tags info)))"
  "map_of (build_base_row info) [0x8BE6, 0x60C5, 0x94FE, 0x63A5] = Some (Str (or_empty (link info)))"
  by (simp_all add: build_base_row_def BASE_COLUMNS_def)

lemma csv_columns_lookup:
  "map_of (csv_columns rt cols row) c =
     (if c \<in> set cols
      then Some (case get_or row c (Str []) of Str s \<Rightarrow> Str (filtrate rt s) | v \<Rightarrow> v)
      else map_of row c)"
proof (induction cols arbitrary: row)
  case Nil
  show ?case by simp
next
  case (Cons col cols)
  let ?f = "\<lambda>v. case v of Str s \<Rightarrow> Str (filtrate rt s) | v \<Rightarrow> v"
  let ?row = "AList.update col (?f (get_or row col (Str []))) row"
  have idem: "?f (?f v) = ?f v" for v
    by (cases v) (simp_all add: filtrate_def)
  have g: "get_or ?row c (Str []) = (if c = col then ?f (get_or row col (Str [])) else get_or row c (Str []))"
    by (simp add: get_or_def update_conv')
  have m: "map_of ?row c = (if c = col then Some (?f (get_or row col (Str []))) else map_of row c)"
    by (simp add: update_conv')
  have "map_of (csv_columns rt (col # cols) row) c = map_of (csv_columns rt cols ?row) c"
    by simp
  also have "\<dots> = (if c \<in> set cols then Some (?f (get_or ?row c (Str []))) else map_of ?row c)"
    by (rule Cons.IH)
  also have "\<dots> = (if c \<in> set (col # cols) then Some (?f (get_or row c (Str []))) else map_of row c)"
    unfolding g m using idem by auto
  finally show ?case .
qed

lemma base_row_written:
  assumes "map_of (build_base_row info) c = Some (Str s)"
  shows "map_of (csv_row rt (build_base_row info)) c = Some (Str (filter (gbk_encodable rt) s))"
proof -
  from assms have "(c, Str s) \<in> set (build_base_row info)"
    by (rule map_of_SomeD)
  then have "c \<in> fst ` set (build_base_row info)"
    by force
  then have "c \<in> set BASE_COLUMNS"
    using base_row_keys [of info] by (metis set_map)
  then have "c \<in> set headers"
    by (simp add: headers_def)
  then show ?thesis
    using assms by (simp add: csv_row_def csv_columns_lookup get_or_def filtrate_def)
qed

lemma detail_loop_skip:
  "row_link (build_base_row info) = [] \<Longrightarrow>
     detail_loop rt pool HTML rnd window n index (info # infos) rows w =
     detail_loop rt pool HTML rnd window n (Suc index) infos (rows @ [build_base_row info]) w"
  by (simp add: Let_def)

lemma detail_loop_fetch_last:
  "row_link (build_base_row info) = url \<Longrightarrow> url \<noteq> [] \<Longrightarrow>
     detail_loop rt pool HTML rnd window n n [info] rows w =
     (Inr (rows @ [fst (fetch_and_merge rt pool HTML url (build_base_row info) w)]),
      snd (fetch_and_merge rt pool HTML url (build_base_row info) w))"
  by (auto simp: Let_def split_beta)

text \<open>
  Claim C7, as amended. For every listing whose link is empty or absent, the loop appends
  the base row and goes on to the next listing in the same state: no request and no
  pause. The row has exactly the sixteen base columns, each a string taken from the
  listing: the title, the location, the seven attributes of \<^verbatim>\<open>details\<close>, the two prices,
  the three counts and dates, the tags joined by a bar, and the link, with the empty
  string for what the listing does not have. The row has no status entry, so
  \<^verbatim>\<open>write_csv\<close> writes an empty status column; every base column it writes with the
  characters dropped that GBK cannot encode.
\<close>

theorem no_link_row_is_kept_without_fetch:
  "or_empty (link info) = [] \<Longrightarrow>
     detail_loop rt pool HTML rnd window n index (info # infos) rows w =
       detail_loop rt pool HTML rnd window n (Suc index) infos (rows @ [build_base_row info]) w \<and>
     detail_loop rt pool HTML rnd window n index [info] rows w = (Inr (rows @ [build_base_row info]), w) \<and>
     map fst (build_base_row info) = BASE_COLUMNS \<and>
     (\<forall>v \<in> snd ` set (build_base_row info). \<exists>s. v = Str s) \<and>
     map_of (build_base_row info) [0x6807, 0x9898] = Some (Str (or_empty (title info))) \<and>
     map_of (build_base_row info) [0x5730, 0x5740] = Some (Str (location info)) \<and>
     map_of (build_base_row info) [0x6237, 0x578B] =
       Some (Str (or_empty (map_of (details info) ''configuration''))) \<and>
     map_of (build_base_row info) [0x9762, 0x79EF] = Some (Str (or_empty (map_of (details info) ''area''))) \<and>
     map_of (build_base_row info) [0x671D, 0x5411] = Some (Str (or_empty (map_of (details info) ''towards''))) \<and>
     map_of (build_base_row info) [0x88C5, 0x4FEE, 0x60C5, 0x51B5] =
       Some (Str (or_empty (map_of (details info) ''decorate''))) \<and>
     map_of (build_base_row info) [0x5C42, 0x6570] = Some (Str (or_empty (map_of (details info) ''storey''))) \<and>
     map_of (build_base_row info) [0x5EFA, 0x9020, 0x65F6, 0x95F4] =
       Some (Str (or_empty (map_of (details info) ''period''))) \<and>
     map_of (build_base_row info) [0x697C, 0x578B] =
       Some (Str (or_empty (map_of (details info) ''categorie''))) \<and>
     map_of (build_base_row info) [0x603B, 0x4EF7] = Some (Str (or_empty (total_price (price info)))) \<and>
     map_of (build_base_row info) [0x6BCF, 0x5E73, 0x7C73, 0x5355, 0x4EF7] =
       Some (Str (or_empty (unit_price (price info)))) \<and>
     map_of (build_base_row info) [0x5173, 0x6CE8, 0x4EBA, 0x6570] = Some (Str (or_empty (follow_count info))) \<and>
     map_of (build_base_row info) [0x5E26, 0x770B, 0x6B21, 0x6570] = Some (Str (or_empty (visit_count info))) \<and>
     map_of (build_base_row info) [0x53D1, 0x5E03, 0x65F6, 0x95F4] = Some (Str (or_empty (publish_time info))) \<and>
     map_of (build_base_row info) [0x6807, 0x7B7E] = Some (Str (join (ascii '' | '') (tags info))) \<and>
     map_of (build_base_row info) [0x8BE6, 0x60C5, 0x94FE, 0x63A5] = Some (Str []) \<and>
     map_of (build_base_row info) status_key = None \<and>
     map_of (csv_row rt (build_base_row info)) status_key = Some (Str []) \<and>
     (\<forall>c s. map_of (build_base_row info) c = Some (Str s) \<longrightarrow>
        map_of (csv_row rt (build_base_row info)) c = Some (Str (filter (gbk_encodable rt) s)))"
proof -
  assume nolink: "or_empty (link info) = []"
  then have skip: "row_link (build_base_row info) = []"
    by (simp add: base_row_link)
  have step: "\<And>rest. detail_loop rt pool HTML rnd window n index (info # rest) rows w =
      detail_loop rt pool HTML rnd window n (Suc index) rest (rows @ [build_base_row info]) w"
    using skip by (rule detail_loop_skip)
  have single: "detail_loop rt pool HTML rnd window n index [info] rows w = (Inr (rows @ [build_base_row info]), w)"
    unfolding step by simp
  have csv: "map_of (csv_row rt (build_base_row info)) status_key = Some (Str [])"
    unfolding csv_row_def using csv_columns_absent [OF base_row_no_status, of rt headers info] status_key_header
    by simp
  have written: "\<forall>c s. map_of (build_base_row info) c = Some (Str s) \<longrightarrow>
      map_of (csv_row rt (build_base_row info)) c = Some (Str (filter (gbk_encodable rt) s))"
    using base_row_written by blast
  have vals: "\<forall>v \<in> snd ` set (build_base_row info). \<exists>s. v = Str s"
    using base_row_values by blast
  note cols = base_row_lookup [of info]
  from step [of infos] single base_row_keys [of info] vals cols(1-15) cols(16) [unfolded nolink]
    base_row_no_status [of info] csv written
  show ?thesis
    by (intro conjI)
qed

lemma unlinked_has_no_link: "or_empty (link unlinked_listing) = []"
  by (simp add: unlinked_listing_def or_empty_def)

theorem no_link_row_is_kept_without_fetch_witness:
  "or_empty (link unlinked_listing) = [] \<and>
   detail_loop ascii_tables sample_pool sample_HTML half_draws (Finite 0, Finite 1) 1 1
       [unlinked_listing] [] (fresh_process failing_network) =
     (Inr ([] @ [build_base_row unlinked_listing]), fresh_process failing_network) \<and>
   map fst (build_base_row unlinked_listing) = BASE_COLUMNS \<and>
   map_of (build_base_row unlinked_listing) [0x6807, 0x9898] = Some (Str (ascii ''Flat A'')) \<and>
   map_of (build_base_row unlinked_listing) [0x5730, 0x5740] = Some (Str (ascii ''Centre'')) \<and>
   map_of (build_base_row unlinked_listing) [0x9762, 0x79EF] = Some (Str (ascii ''89 m2'')) \<and>
   map_of (build_base_row unlinked_listing) [0x603B, 0x4EF7] = Some (Str (ascii ''300 W'')) \<and>
   map_of (build_base_row unlinked_listing) [0x6BCF, 0x5E73, 0x7C73, 0x5355, 0x4EF7] = Some (Str []) \<and>
   map_of (build_base_row unlinked_listing) [0x6807, 0x7B7E] = Some (Str (ascii ''metro'')) \<and>
   map_of (build_base_row unlinked_listing) [0x8BE6, 0x60C5, 0x94FE, 0x63A5] = Some (Str []) \<and>
   map_of (build_base_row unlinked_listing) status_key = None \<and>
   map_of (csv_row ascii_tables (build_base_row unlinked_listing)) status_key = Some (Str []) \<and>
   map_of (csv_row ascii_tables (build_base_row unlinked_listing)) [0x6807, 0x9898] =
     Some (Str (filter (gbk_encodable ascii_tables) (ascii ''Flat A'')))"
proof -
  note T = no_link_row_is_kept_without_fetch [OF unlinked_has_no_link,
      where rt = ascii_tables and pool = sample_pool and HTML = sample_HTML and rnd = half_draws
        and window = "(Finite 0, Finite 1)" and n = 1 and index = 1 and infos = "[]" and rows = "[]"
        and w = "fresh_process failing_network"]
  have v: "or_empty (title unlinked_listing) = ascii ''Flat A''"
    "location unlinked_listing = ascii ''Centre''"
    "or_empty (map_of (details unlinked_listing) ''area'') = ascii ''89 m2''"
    "or_empty (total_price (price unlinked_listing)) = ascii ''300 W''"
    "or_empty (unit_price (price unlinked_listing)) = []"
    "join (ascii '' | '') (tags unlinked_listing) = ascii ''metro''"
    by (simp_all add: unlinked_listing_def or_empty_def)
  have title: "map_of (build_base_row unlinked_listing) [0x6807, 0x9898] = Some (Str (ascii ''Flat A''))"
    using T unfolding v by blast
  have written: "map_of (csv_row ascii_tables (build_base_row unlinked_listing)) [0x6807, 0x9898] =
      Some (Str (filter (gbk_encodable ascii_tables) (ascii ''Flat A'')))"
    using T title by blast
  from T [unfolded v] unlinked_has_no_link written show ?thesis
    by blast
qed

lemma status_not_detail: "status_key \<notin> set DETAIL_COLUMNS"
  by (simp add: status_key_def DETAIL_COLUMNS_def)

lemma merge_detail_keeps_status:
  "map_of dd status_key = None \<Longrightarrow> map_of (merge_detail rt row dd) status_key = map_of row status_key"
  using status_not_detail by (simp add: merge_detail_def merge_columns_lookup)

lemma parse_empty_tree:
  "parse_detail ascii_tables sample_HTML (ascii ''<html>ok</html>'') = Inr []"
  by (simp add: parse_detail_def sample_HTML_def comment_page_def login_page_def empty_tree_def
      stripped_nonempty_def login_marker_1_def login_marker_2_def ascii_def Let_def)

lemma warmup_fails_fetch:
  "request_detail ascii_tables sample_pool sample_url 3 (fresh_process warmup_fails) =
     (Inr (ascii ''<html>ok</html>''),
      after_get (Detail_get sample_url)
        (after_attempts sample_url 0
          (prewarm (domain_of (ascii ''https'', ascii ''bj.lianjia.com''))
             (referer_of (domain_of (ascii ''https'', ascii ''bj.lianjia.com'')))
             (fresh_process warmup_fails))))"
proof -
  let ?p = "(ascii ''https'', ascii ''bj.lianjia.com'')"
  let ?b = "fresh_process warmup_fails"
  let ?b1 = "prewarm (domain_of ?p) (referer_of (domain_of ?p)) ?b"
  have c: "calls ?b1 = 1" and n: "net ?b = warmup_fails"
    by (simp_all add: prewarm_fresh) (simp add: fresh_process_def)
  have good: "good_page (net ?b (calls ?b1 + 0))"
    using good_body_not_blocked
    unfolding c n by (simp add: warmup_fails_def good_page_def page_def ascii_def)
  have body: "body_of (net ?b (calls ?b1 + 0)) = ascii ''<html>ok</html>''"
    unfolding c n by (simp add: warmup_fails_def body_of_def page_def)
  have "request_detail ascii_tables sample_pool sample_url 3 ?b =
      (Inr (body_of (net ?b (calls ?b1 + 0))), after_get (Detail_get sample_url) (after_attempts sample_url 0 ?b1))"
    using good by (intro request_detail_good [OF sample_pool_nonempty sample_url_parsed refl]) simp_all
  then show ?thesis
    unfolding body .
qed

text \<open>
  The claim as stated fails: the status column does not say that the record was skipped.
  In a run over a listing without a link and a listing whose page is fetched and parsed
  without trouble, both written rows have the empty string as status.
\<close>

theorem no_link_row_counterexample:
  "fst (detail_main ascii_tables sample_pool sample_HTML half_draws default_args
     [unlinked_listing, linked_listing] (fresh_process warmup_fails)) =
     Inr [csv_row ascii_tables (build_base_row unlinked_listing),
          csv_row ascii_tables (merge_detail ascii_tables (build_base_row linked_listing) [])] \<and>
   map_of (csv_row ascii_tables (build_base_row unlinked_listing)) status_key = Some (Str []) \<and>
   map_of (csv_row ascii_tables (merge_detail ascii_tables (build_base_row linked_listing) [])) status_key =
     Some (Str [])"
proof -
  let ?HTML = "sample_HTML"
  let ?w = "fresh_process warmup_fails"
  let ?win = "delay_window (Finite (3 / 5)) (Finite (8 / 5))"
  let ?r1 = "build_base_row unlinked_listing"
  let ?r2 = "merge_detail ascii_tables (build_base_row linked_listing) []"
  have link2: "row_link (build_base_row linked_listing) = sample_url"
    by (simp add: base_row_link linked_listing_def or_empty_def)
  have url_nonempty: "sample_url \<noteq> []"
    by (simp add: sample_url_def ascii_def)
  have skip: "row_link ?r1 = []"
    by (simp add: base_row_link unlinked_has_no_link)
  have fetch: "fst (fetch_and_merge ascii_tables sample_pool ?HTML sample_url (build_base_row linked_listing) ?w) = ?r2"
    by (simp add: fetch_and_merge_def warmup_fails_fetch parse_empty_tree)
  have "detail_loop ascii_tables sample_pool ?HTML half_draws ?win (Suc (Suc 0)) (Suc 0)
        [unlinked_listing, linked_listing] [] ?w =
      detail_loop ascii_tables sample_pool ?HTML half_draws ?win (Suc (Suc 0)) (Suc (Suc 0)) [linked_listing] ([] @ [?r1]) ?w"
    using skip by (rule detail_loop_skip)
  also have "fst \<dots> = Inr (([] @ [?r1]) @ [?r2])"
    unfolding detail_loop_fetch_last [OF link2 url_nonempty] fst_conv fetch ..
  finally have rows: "fst (detail_loop ascii_tables sample_pool ?HTML half_draws ?win (Suc (Suc 0)) (Suc 0)
      [unlinked_listing, linked_listing] [] ?w) = Inr [?r1, ?r2]"
    by simp
  have s1: "map_of (csv_row ascii_tables ?r1) status_key = Some (Str [])"
    unfolding csv_row_def
    using csv_columns_absent [OF base_row_no_status, of ascii_tables headers unlinked_listing] status_key_header
    by simp
  have "map_of ?r2 status_key = None"
    by (simp add: merge_detail_keeps_status base_row_no_status)
  then have s2: "map_of (csv_row ascii_tables ?r2) status_key = Some (Str [])"
    unfolding csv_row_def using csv_columns_absent [of ?r2 status_key ascii_tables headers] status_key_header
    by simp
  have "fst (detail_main ascii_tables sample_pool ?HTML half_draws default_args [unlinked_listing, linked_listing] ?w) =
      Inr (map (csv_row ascii_tables) [?r1, ?r2])"
    using rows
    by (cases "detail_loop ascii_tables sample_pool ?HTML half_draws ?win (Suc (Suc 0)) (Suc 0)
          [unlinked_listing, linked_listing] [] ?w")
      (auto simp: detail_main_def default_args_def falsy_def Let_def simp del: detail_loop.simps)
  then show ?thesis
    using s1 s2 by simp
qed

end
